theory Spec2Isabelle
  imports Complex_Main "HOL-Library.Sublist" "HOL-Library.Char_ord" "HOL-Library.List_Lexorder"
begin

section \<open>The dataset build pipeline of DeepPoseRobot\<close>

text \<open>
  A shallow embedding of \<^verbatim>\<open>robotpose/building.py\<close> (class \<^verbatim>\<open>Builder\<close>) and of the
  dataset lookup and validation of \<^verbatim>\<open>robotpose/dataset.py\<close>.

  Python exceptions are values of \<open>py_error\<close>; a method that can raise returns
  \<open>py_error + 'a\<close>. Floats are idealised as reals: the code only stores, compares and
  truncates them. Images, depth maps, masks and point maps are values of an opaque type
  \<open>'r\<close>; camera intrinsics identifiers are values of an opaque type \<open>'c\<close>.
\<close>

subsection \<open>Errors\<close>

datatype py_error =
    AssertionError string
  | ValueError
  | TypeError
  | IndexError
  | KeyError
  | AttributeError
  | FileNotFoundError

subsection \<open>Strings and paths\<close>

text \<open>\<^verbatim>\<open>s.endswith(sfx)\<close>.\<close>

definition endswith :: "string \<Rightarrow> string \<Rightarrow> bool" where
  "endswith s sfx \<longleftrightarrow> length sfx \<le> length s \<and> drop (length s - length sfx) s = sfx"

text \<open>\<^verbatim>\<open>s.replace(old, new)\<close>: every non-overlapping occurrence of \<open>old\<close>, scanning from
  the left, is replaced; an empty \<open>old\<close> matches before every character and at the end.\<close>

function replace_from :: "string \<Rightarrow> string \<Rightarrow> string \<Rightarrow> string" where
  "replace_from old new [] = []"
| "replace_from old new (c # cs) =
     (if old \<noteq> [] \<and> prefix old (c # cs)
      then new @ replace_from old new (drop (length old) (c # cs))
      else c # replace_from old new cs)"
  by pat_completeness auto
termination
  by (relation "measure (\<lambda>(old, new, s). length s)") (auto simp: neq_Nil_conv)

definition str_replace :: "string \<Rightarrow> string \<Rightarrow> string \<Rightarrow> string" where
  "str_replace s old new =
     (if old = [] then new @ concat (map (\<lambda>c. c # new) s) else replace_from old new s)"

text \<open>\<^verbatim>\<open>os.path.join(a, b)\<close> on a POSIX system.\<close>

definition path_join :: "string \<Rightarrow> string \<Rightarrow> string" where
  "path_join a b =
     (if b \<noteq> [] \<and> hd b = CHR ''/'' then b
      else if a = [] \<or> last a = CHR ''/'' then a @ b
      else a @ ''/'' @ b)"

text \<open>\<^verbatim>\<open>q in s\<close> on strings: \<open>q\<close> occurs in \<open>s\<close> as a contiguous substring.\<close>

fun str_in :: "string \<Rightarrow> string \<Rightarrow> bool" where
  "str_in q [] \<longleftrightarrow> q = []"
| "str_in q (c # cs) \<longleftrightarrow> prefix q (c # cs) \<or> str_in q cs"

text \<open>\<^verbatim>\<open>int(x)\<close> on a float: truncation towards zero.\<close>

definition py_int :: "real \<Rightarrow> int" where
  "py_int x = (if 0 \<le> x then \<lfloor>x\<rfloor> else \<lceil>x\<rceil>)"

subsection \<open>Data model\<close>

text \<open>One parsed per-frame JSON file: \<^verbatim>\<open>realsense_info[0]\<close> and the joints of
  \<^verbatim>\<open>objects[0]\<close>, each joint an angle and a position.\<close>

record 'c json_frame =
  rs_depth_scale :: real
  rs_intrin_depth :: 'c
  rs_intrin_color :: 'c
  joints :: "(real \<times> real \<times> real \<times> real) list"

text \<open>The scalar attributes of a container file (\<^verbatim>\<open>file.attrs\<close>).\<close>

record 'c h5attrs =
  attr_name :: string
  attr_version :: real
  attr_length :: nat
  attr_build_date :: string
  attr_compile_date :: string
  attr_compile_time :: real
  attr_type :: string
  attr_original_resolution :: "nat list"
  attr_segmented_resolution :: "nat list"
  attr_depth_intrinsics :: 'c
  attr_color_intrinsics :: 'c
  attr_depth_scale :: real

text \<open>A container file: its attributes and its ten per-frame arrays, each a list of rows
  (the leading dimension is the length of the list).\<close>

record ('r, 'c) container =
  attrs :: "'c h5attrs"
  angles :: "real list list"
  positions :: "(real \<times> real \<times> real) list list"
  coordinates_depthmaps :: "'r list"
  depthmaps_depth_scale :: real
  coordinates_pointmaps :: "'r list"
  images_original :: "'r list"
  images_segmented :: "'r list"
  images_rois :: "int list list"
  paths_jsons :: "string list"
  paths_depthmaps :: "string list"
  paths_images :: "string list"

text \<open>The container files on disk, by path.\<close>

type_synonym ('r, 'c) fs = "string \<rightharpoonup> ('r, 'c) container"

text \<open>The attributes of a \<^verbatim>\<open>Builder\<close> object. \<open>closed_file\<close> is the path of the file
  that \<^verbatim>\<open>_read_full\<close> last read: the attributes object and the ten datasets that the
  method stores in the builder are handles of that file, which is closed when the method
  returns, and no row can be read through them any more.\<close>

record ('r, 'c) builder =
  build_start_time :: real
  dest_path :: string
  name :: string
  jsons_p :: "string list"
  maps_p :: "string list"
  imgs_p :: "string list"
  jsons :: "string list"
  maps :: "string list"
  imgs :: "string list"
  self_length :: nat
  ang_arr :: "real list list"
  pos_arr :: "(real \<times> real \<times> real) list list"
  depth_scale :: real
  intrin_depth :: 'c
  intrin_color :: 'c
  img_height :: nat
  img_width :: nat
  orig_img_arr :: "'r list"
  depthmap_arr :: "'r list"
  segmented_img_arr :: "'r list"
  pointmap :: "'r list"
  mask_arr :: "'r list"
  rois :: "int list list"
  closed_file :: "string option"

text \<open>What the builder reads from outside: the raw capture directory (the directory walk
  and the decoded content of each file), the segmenter, the cropper, the worker count and
  the datasets directory. \<open>zeros shp\<close> is one all-zero row of shape \<open>shp\<close>;
  \<open>scale s d\<close> is the depth map \<open>d\<close> multiplied by \<open>s\<close>.\<close>

record ('r, 'c) world =
  DATASETS :: string
  basename_normpath :: "string \<Rightarrow> string"
  walk :: "string \<Rightarrow> (string \<times> string list) list"
  json_load :: "string \<Rightarrow> 'c json_frame"
  imread :: "string \<Rightarrow> 'r"
  np_load :: "string \<Rightarrow> 'r"
  shape :: "'r \<Rightarrow> nat list"
  zeros :: "nat list \<Rightarrow> 'r"
  scale :: "real \<Rightarrow> 'r \<Rightarrow> 'r"
  segmentImage :: "'r \<Rightarrow> 'r \<times> real list"
  seg_height :: nat
  seg_width :: nat
  crop :: "'r \<Rightarrow> 'r \<Rightarrow> 'r \<Rightarrow> int list \<Rightarrow> 'r \<times> 'r"
  workerCount :: nat

text \<open>The clock readings of one run: the two \<^verbatim>\<open>datetime.now()\<close> strings and
  \<^verbatim>\<open>time.time()\<close>.\<close>

record clock =
  now_build :: string
  now_compile :: string
  time_now :: real

subsection \<open>Loops over frame indices\<close>

text \<open>\<^verbatim>\<open>range(start, stop, step)\<close> for a positive step.\<close>

function range_step :: "nat \<Rightarrow> nat \<Rightarrow> nat \<Rightarrow> nat list" where
  "range_step start stop step =
     (if step = 0 \<or> stop \<le> start then [] else start # range_step (start + step) stop step)"
  by pat_completeness auto
termination
  by (relation "measure (\<lambda>(start, stop, step). stop - start)") auto

declare range_step.simps [simp del]

text \<open>\<^verbatim>\<open>for idx, path in zip(range(n), paths): arr[idx] = f(path)\<close>.\<close>

fun assign_loop :: "(nat \<times> 'p) list \<Rightarrow> ('p \<Rightarrow> 'v) \<Rightarrow> 'v list \<Rightarrow> 'v list" where
  "assign_loop [] f arr = arr"
| "assign_loop ((idx, path) # rest) f arr = assign_loop rest f (arr[idx := f path])"

subsection \<open>The batched cropping stage\<close>

text \<open>\<^verbatim>\<open>with mp.Pool(n) as pool: pool.starmap(crop, crop_inputs)\<close>: a pool of fewer than
  one process is refused; the results come back in the order of the inputs.\<close>

definition pool_starmap ::
  "nat \<Rightarrow> ('r \<Rightarrow> 'r \<Rightarrow> 'r \<Rightarrow> int list \<Rightarrow> 'r \<times> 'r) \<Rightarrow> ('r \<times> 'r \<times> 'r \<times> int list) list
     \<Rightarrow> py_error + ('r \<times> 'r) list" where
  "pool_starmap n f crop_inputs =
     (if n < 1 then Inl ValueError
      else Inr (map (\<lambda>(d, i, m, r). f d i m r) crop_inputs))"

text \<open>The write-back loop of one batch:
  \<^verbatim>\<open>for idx in range(start, start+batch_size): seg[idx] = out[idx-start][0]; pm[idx] = out[idx-start][1]\<close>.\<close>

fun write_back ::
  "nat list \<Rightarrow> nat \<Rightarrow> ('r \<times> 'r) list \<Rightarrow> 'r list \<times> 'r list \<Rightarrow> 'r list \<times> 'r list" where
  "write_back [] start crop_outputs (seg, pm) = (seg, pm)"
| "write_back (idx # rest) start crop_outputs (seg, pm) =
     write_back rest start crop_outputs
       (seg[idx := fst (crop_outputs ! (idx - start))],
        pm[idx := snd (crop_outputs ! (idx - start))])"

text \<open>The body of \<^verbatim>\<open>for start in range(0, self.length, batch_size)\<close>. The list of starts
  is computed once, from the initial batch size; \<open>batch_size\<close> is a variable of the loop,
  shortened when the batch reaches the end.\<close>

fun crop_batches ::
  "('r, 'c) world \<Rightarrow> nat \<Rightarrow> ('r, 'c) builder \<Rightarrow> nat list \<Rightarrow> nat \<times> 'r list \<times> 'r list
     \<Rightarrow> py_error + (nat \<times> 'r list \<times> 'r list)" where
  "crop_batches w n self [] st = Inr st"
| "crop_batches w n self (start # starts) (batch_size, seg, pm) =
     (let batch_size = (if start + batch_size \<ge> self_length self
                        then self_length self - start else batch_size);
          crop_inputs = map (\<lambda>idx. (depthmap_arr self ! idx, orig_img_arr self ! idx,
                                      mask_arr self ! idx, rois self ! idx))
                            [start..<start + batch_size]
      in case pool_starmap n (crop w) crop_inputs of
           Inl e \<Rightarrow> Inl e
         | Inr crop_outputs \<Rightarrow>
             crop_batches w n self starts
               (case write_back [start..<start + batch_size] start crop_outputs (seg, pm) of
                  (seg', pm') \<Rightarrow> (batch_size, seg', pm')))"

text \<open>The cropping block of \<^verbatim>\<open>_segment_images_and_maps\<close>, for an initial batch size
  and a worker count. \<^verbatim>\<open>range\<close> refuses a step of zero.\<close>

definition crop_data ::
  "('r, 'c) world \<Rightarrow> nat \<Rightarrow> nat \<Rightarrow> ('r, 'c) builder \<Rightarrow> py_error + ('r, 'c) builder" where
  "crop_data w batch_size n self =
     (if batch_size = 0 then Inl ValueError
      else case crop_batches w n self (range_step 0 (self_length self) batch_size)
                  (batch_size, segmented_img_arr self, pointmap self) of
             Inl e \<Rightarrow> Inl e
           | Inr (_, seg, pm) \<Rightarrow> Inr (self\<lparr>segmented_img_arr := seg, pointmap := pm\<rparr>))"

text \<open>\<^verbatim>\<open>rois.astype(int)\<close>.\<close>

definition astype_int :: "real list list \<Rightarrow> int list list" where
  "astype_int rs = map (map py_int) rs"

text \<open>The segmentation loop:
  \<^verbatim>\<open>for idx in range(self.length): self.mask_arr[idx], self.rois[idx] = segmenter.segmentImage(self.orig_img_arr[idx])\<close>.\<close>

fun segment_loop ::
  "('r, 'c) world \<Rightarrow> ('r, 'c) builder \<Rightarrow> nat list \<Rightarrow> 'r list \<times> real list list
     \<Rightarrow> 'r list \<times> real list list" where
  "segment_loop w self [] (masks, rs) = (masks, rs)"
| "segment_loop w self (idx # rest) (masks, rs) =
     (case segmentImage w (orig_img_arr self ! idx) of
        (m, r) \<Rightarrow> segment_loop w self rest (masks[idx := m], rs[idx := r]))"

text \<open>\<^verbatim>\<open>Builder._segment_images_and_maps\<close>: the segmenter runs on every frame in turn,
  then the frames are cropped in batches of 100 by \<^verbatim>\<open>workerCount()\<close> workers.\<close>

definition segment_images_and_maps ::
  "('r, 'c) world \<Rightarrow> ('r, 'c) builder \<Rightarrow> py_error + ('r, 'c) builder" where
  "segment_images_and_maps w self =
     (let n = self_length self;
          seg0 = replicate n (zeros w [seg_height w, seg_width w, 3]);
          pm0 = replicate n (zeros w [seg_height w, seg_width w, 3]);
          mask0 = replicate n (zeros w [img_height self, img_width self]);
          rois0 = replicate n (replicate 4 0)
      in case segment_loop w self [0..<n] (mask0, rois0) of
           (masks, rs) \<Rightarrow>
             crop_data w 100 (workerCount w)
               (self\<lparr>segmented_img_arr := seg0, pointmap := pm0, mask_arr := masks,
                     rois := astype_int rs\<rparr>))"

text \<open>The reference for the cropping stage: the Cropper applied to frame \<open>i\<close>, and to
  every frame in turn.\<close>

definition crop_frame :: "('r, 'c) world \<Rightarrow> ('r, 'c) builder \<Rightarrow> nat \<Rightarrow> 'r \<times> 'r" where
  "crop_frame w self i =
     crop w (depthmap_arr self ! i) (orig_img_arr self ! i) (mask_arr self ! i) (rois self ! i)"

definition crop_sequential :: "('r, 'c) world \<Rightarrow> ('r, 'c) builder \<Rightarrow> ('r \<times> 'r) list" where
  "crop_sequential w self = map (crop_frame w self) [0..<self_length self]"

subsection \<open>The source scanner\<close>

text \<open>\<^verbatim>\<open>[os.path.join(r,x) for r,d,y in os.walk(data_path) for x in y if x.endswith(ext)]\<close>,
  on the \<open>(root, files)\<close> pairs of the walk.\<close>

definition files_with_ext :: "(string \<times> string list) list \<Rightarrow> string \<Rightarrow> string list" where
  "files_with_ext wk ext = [path_join r x. (r, y) \<leftarrow> wk, x \<leftarrow> y, endswith x ext]"

text \<open>The files of a walk as \<open>(root, file)\<close> pairs, in the order of the walk, and the
  number of them whose name ends in \<open>ext\<close>.\<close>

definition walk_files :: "(string \<times> string list) list \<Rightarrow> (string \<times> string) list" where
  "walk_files wk = concat (map (\<lambda>(r, y). map (Pair r) y) wk)"

definition count_ext :: "(string \<times> string list) list \<Rightarrow> string \<Rightarrow> nat" where
  "count_ext wk ext = length (filter (\<lambda>(r, x). endswith x ext) (walk_files wk))"

text \<open>The three files from which frame \<open>k\<close> of the dataset is read.\<close>

definition frame_paths :: "('r, 'c) builder \<Rightarrow> nat \<Rightarrow> string \<times> string \<times> string" where
  "frame_paths s k = (jsons_p s ! k, maps_p s ! k, imgs_p s ! k)"

text \<open>\<^verbatim>\<open>Builder._set_dest_path\<close>. The directory it creates holds no container, and is not
  part of the modelled file system.\<close>

definition set_dest_path ::
  "('r, 'c) world \<Rightarrow> ('r, 'c) builder \<Rightarrow> string \<Rightarrow> string option \<Rightarrow> ('r, 'c) builder" where
  "set_dest_path w self data_path name_arg =
     (let nm = (case name_arg of None \<Rightarrow> basename_normpath w data_path | Some n \<Rightarrow> n)
      in self\<lparr>dest_path := path_join (DATASETS w) nm, name := nm\<rparr>)"

text \<open>\<^verbatim>\<open>Builder._get_filepaths_from_data_dir\<close>.\<close>

definition get_filepaths_from_data_dir ::
  "('r, 'c) world \<Rightarrow> ('r, 'c) builder \<Rightarrow> string \<Rightarrow> py_error + ('r, 'c) builder" where
  "get_filepaths_from_data_dir w self data_path =
     (let jp = files_with_ext (walk w data_path) ''.json'';
          mp = files_with_ext (walk w data_path) ''.npy'';
          ip = files_with_ext (walk w data_path) ''.png'';
          js = map (\<lambda>x. str_replace x data_path []) jp;
          ms = map (\<lambda>x. str_replace x data_path []) mp;
          is = map (\<lambda>x. str_replace x data_path []) ip
      in if \<not> (length js = length ms \<and> length ms = length is)
         then Inl (AssertionError ''Unequal number of images, jsons, or maps'')
         else Inr (self\<lparr>jsons_p := jp, maps_p := mp, imgs_p := ip,
                        jsons := js, maps := ms, imgs := is, self_length := length is\<rparr>))"

subsection \<open>Parsing the per-frame JSON files\<close>

text \<open>The loop of \<^verbatim>\<open>_load_json_data\<close>. The three Python sets are duplicate-free lists;
  reading \<^verbatim>\<open>d[sub_idx]\<close> for \<^verbatim>\<open>sub_idx in range(6)\<close> raises when there are fewer than six
  joints.\<close>

fun parse_jsons ::
  "('r, 'c) world \<Rightarrow> (nat \<times> string) list
     \<Rightarrow> real list list \<times> (real \<times> real \<times> real) list list \<times> real list \<times> 'c list \<times> 'c list
     \<Rightarrow> py_error + (real list list \<times> (real \<times> real \<times> real) list list \<times> real list \<times> 'c list \<times> 'c list)"
  where
  "parse_jsons w [] st = Inr st"
| "parse_jsons w ((idx, path) # rest) (ang, pos, depth_scale_set, intrin_depth_set, intrin_color_set) =
     (let d = json_load w path;
          depth_scale_set = List.insert (rs_depth_scale d) depth_scale_set;
          intrin_depth_set = List.insert (rs_intrin_depth d) intrin_depth_set;
          intrin_color_set = List.insert (rs_intrin_color d) intrin_color_set
      in if length (joints d) < 6 then Inl IndexError
         else parse_jsons w rest
                (ang[idx := map (\<lambda>sub_idx. fst (joints d ! sub_idx)) [0..<6]],
                 pos[idx := map (\<lambda>sub_idx. snd (joints d ! sub_idx)) [0..<6]],
                 depth_scale_set, intrin_depth_set, intrin_color_set))"

text \<open>\<^verbatim>\<open>Builder._load_json_data\<close>.\<close>

definition load_json_data ::
  "('r, 'c) world \<Rightarrow> ('r, 'c) builder \<Rightarrow> py_error + ('r, 'c) builder" where
  "load_json_data w self =
     (let n = self_length self
      in case parse_jsons w (zip [0..<n] (jsons_p self))
                (replicate n (replicate 6 0), replicate n (replicate 6 (0, 0, 0)), [], [], []) of
           Inl e \<Rightarrow> Inl e
         | Inr (ang, pos, depth_scale_set, intrin_depth_set, intrin_color_set) \<Rightarrow>
             if \<not> (length depth_scale_set = length intrin_depth_set
                    \<and> length intrin_depth_set = length intrin_color_set
                    \<and> length intrin_color_set = 1)
             then Inl (AssertionError ''Camera settings must be uniform over the dataset.'')
             else Inr (self\<lparr>ang_arr := ang, pos_arr := pos,
                            depth_scale := hd depth_scale_set,
                            intrin_depth := hd intrin_depth_set,
                            intrin_color := hd intrin_color_set\<rparr>))"

subsection \<open>Loading images and depth maps\<close>

text \<open>\<^verbatim>\<open>Builder._load_imgs_and_depthmaps\<close>. Every frame is taken to have the resolution of
  the first one.\<close>

definition load_imgs_and_depthmaps ::
  "('r, 'c) world \<Rightarrow> ('r, 'c) builder \<Rightarrow> py_error + ('r, 'c) builder" where
  "load_imgs_and_depthmaps w self =
     (case imgs_p self of
        [] \<Rightarrow> Inl IndexError
      | p0 # _ \<Rightarrow>
          (case take 2 (shape w (imread w p0)) of
             [h, wd] \<Rightarrow>
               (let n = self_length self;
                    orig = assign_loop (zip [0..<n] (imgs_p self)) (imread w)
                             (replicate n (zeros w [h, wd, 3]));
                    dm = assign_loop (zip [0..<n] (maps_p self)) (np_load w)
                           (replicate n (zeros w [h, wd]))
                in Inr (self\<lparr>img_height := h, img_width := wd, orig_img_arr := orig,
                             depthmap_arr := map (scale w (depth_scale self)) dm\<rparr>))
           | _ \<Rightarrow> Inl ValueError))"

subsection \<open>Writing a container\<close>

text \<open>The attribute assignments of \<^verbatim>\<open>_save_full\<close> on the attributes \<open>a0\<close> of a file that
  exists already, in the order of the source; reading \<^verbatim>\<open>arr[0]\<close> of an empty array
  raises and leaves the later attributes as they were.\<close>

definition write_attrs ::
  "('r, 'c) world \<Rightarrow> ('r, 'c) builder \<Rightarrow> real \<Rightarrow> clock \<Rightarrow> 'c h5attrs
     \<Rightarrow> 'c h5attrs \<times> py_error option" where
  "write_attrs w self ver clk a0 =
     (let a1 = a0\<lparr>attr_name := name self, attr_version := ver,
                   attr_length := self_length self, attr_build_date := now_build clk,
                   attr_compile_date := now_compile clk,
                   attr_compile_time := time_now clk - build_start_time self,
                   attr_type := ''full''\<rparr>
      in case orig_img_arr self of
           [] \<Rightarrow> (a1, Some IndexError)
         | img # _ \<Rightarrow>
             (let a2 = a1\<lparr>attr_original_resolution := shape w img\<rparr>
              in case segmented_img_arr self of
                   [] \<Rightarrow> (a2, Some IndexError)
                 | seg # _ \<Rightarrow>
                     (a2\<lparr>attr_segmented_resolution := shape w seg,
                         attr_depth_intrinsics := intrin_depth self,
                         attr_color_intrinsics := intrin_color self,
                         attr_depth_scale := depth_scale self\<rparr>, None)))"

text \<open>The twelve attributes of a file that \<^verbatim>\<open>_save_full\<close> creates.\<close>

definition full_attrs ::
  "('r, 'c) world \<Rightarrow> ('r, 'c) builder \<Rightarrow> real \<Rightarrow> clock \<Rightarrow> 'r \<Rightarrow> 'r \<Rightarrow> 'c h5attrs" where
  "full_attrs w self ver clk img seg =
     \<lparr>attr_name = name self, attr_version = ver, attr_length = self_length self,
      attr_build_date = now_build clk, attr_compile_date = now_compile clk,
      attr_compile_time = time_now clk - build_start_time self, attr_type = ''full'',
      attr_original_resolution = shape w img, attr_segmented_resolution = shape w seg,
      attr_depth_intrinsics = intrin_depth self, attr_color_intrinsics = intrin_color self,
      attr_depth_scale = depth_scale self\<rparr>"

text \<open>\<^verbatim>\<open>Builder._save_full\<close>. \<^verbatim>\<open>h5py.File(dest,'a')\<close> opens an existing file with its
  content and creates a missing one; \<^verbatim>\<open>create_dataset\<close> refuses a name that the file
  already has. A new file left with attributes only (an empty image array) is no
  container and does not appear in the file system.\<close>

definition save_full ::
  "('r, 'c) world \<Rightarrow> ('r, 'c) builder \<Rightarrow> ('r, 'c) fs \<Rightarrow> real \<Rightarrow> clock
     \<Rightarrow> ('r, 'c) fs \<times> (py_error + string)" where
  "save_full w self fs ver clk =
     (let dest = path_join (dest_path self) (name self @ ''.h5'')
      in case fs dest of
           Some file \<Rightarrow>
             (case write_attrs w self ver clk (attrs file) of
                (a, err) \<Rightarrow>
                  (fs(dest \<mapsto> file\<lparr>attrs := a\<rparr>),
                   Inl (case err of Some e \<Rightarrow> e | None \<Rightarrow> ValueError)))
         | None \<Rightarrow>
             (case (orig_img_arr self, segmented_img_arr self) of
                (img # _, seg # _) \<Rightarrow>
                  (fs(dest \<mapsto>
                       \<lparr>attrs = full_attrs w self ver clk img seg,
                        angles = ang_arr self,
                        positions = pos_arr self,
                        coordinates_depthmaps = depthmap_arr self,
                        depthmaps_depth_scale = depth_scale self,
                        coordinates_pointmaps = pointmap self,
                        images_original = orig_img_arr self,
                        images_segmented = segmented_img_arr self,
                        images_rois = rois self,
                        paths_jsons = jsons self,
                        paths_depthmaps = maps self,
                        paths_images = imgs self\<rparr>),
                   Inr dest)
              | _ \<Rightarrow> (fs, Inl IndexError)))"

text \<open>A call \<^verbatim>\<open>self._save_full(*args)\<close>: the method has one required parameter, \<^verbatim>\<open>ver\<close>,
  and Python raises \<^verbatim>\<open>TypeError\<close> before the body runs when the call does not pass
  exactly one argument.\<close>

fun call_save_full ::
  "('r, 'c) world \<Rightarrow> ('r, 'c) builder \<Rightarrow> ('r, 'c) fs \<Rightarrow> real list \<Rightarrow> clock
     \<Rightarrow> ('r, 'c) fs \<times> (py_error + string)" where
  "call_save_full w self fs [ver] clk = save_full w self fs ver clk"
| "call_save_full w self fs args clk = (fs, Inl TypeError)"

subsection \<open>The full build\<close>

text \<open>\<^verbatim>\<open>Builder.build_full\<close>. An exception in a stage ends the build; nothing is written
  before \<^verbatim>\<open>_save_full\<close>. The preview videos of \<^verbatim>\<open>_save_reference_videos\<close> are files
  beside the container and are not modelled.\<close>

definition build_full ::
  "('r, 'c) world \<Rightarrow> ('r, 'c) builder \<Rightarrow> ('r, 'c) fs \<Rightarrow> string \<Rightarrow> real \<Rightarrow> string option
     \<Rightarrow> clock \<Rightarrow> ('r, 'c) fs \<times> (py_error + string)" where
  "build_full w self fs data_path dataset_ver name_arg clk =
     (case get_filepaths_from_data_dir w (set_dest_path w self data_path name_arg) data_path of
        Inl e \<Rightarrow> (fs, Inl e)
      | Inr s1 \<Rightarrow>
     (case load_json_data w s1 of
        Inl e \<Rightarrow> (fs, Inl e)
      | Inr s2 \<Rightarrow>
     (case load_imgs_and_depthmaps w s2 of
        Inl e \<Rightarrow> (fs, Inl e)
      | Inr s3 \<Rightarrow>
     (case segment_images_and_maps w s3 of
        Inl e \<Rightarrow> (fs, Inl e)
      | Inr s4 \<Rightarrow> call_save_full w s4 fs [dataset_ver] clk))))"

subsection \<open>Subsets\<close>

text \<open>\<^verbatim>\<open>Builder._read_full\<close>. The five scalar values are read while the file is open.
  \<^verbatim>\<open>self.attrs\<close> and the ten array attributes are bound to the attributes object and
  the datasets of the file itself, and the \<^verbatim>\<open>with\<close> block closes the file on exit: what
  the builder keeps are handles of a closed file, through which nothing can be read. The
  array fields hold no rows afterwards, and \<open>closed_file\<close> names the file.\<close>

definition read_full ::
  "('r, 'c) builder \<Rightarrow> ('r, 'c) fs \<Rightarrow> string \<Rightarrow> py_error + ('r, 'c) builder" where
  "read_full self fs path =
     (case fs path of
        None \<Rightarrow> Inl FileNotFoundError
      | Some file \<Rightarrow>
          Inr (self\<lparr>name := attr_name (attrs file),
                    self_length := attr_length (attrs file),
                    intrin_depth := attr_depth_intrinsics (attrs file),
                    intrin_color := attr_color_intrinsics (attrs file),
                    depth_scale := attr_depth_scale (attrs file),
                    closed_file := Some path,
                    ang_arr := [], pos_arr := [], depthmap_arr := [], pointmap := [],
                    orig_img_arr := [], segmented_img_arr := [], rois := [],
                    jsons := [], maps := [], imgs := []\<rparr>))"

text \<open>\<^verbatim>\<open>Builder._write_subset\<close>. The first statement in the \<^verbatim>\<open>with\<close> block is
  \<^verbatim>\<open>file.attrs = self.attrs\<close>. The \<^verbatim>\<open>attrs\<close> of an h5py file is a property with no
  setter, so the assignment raises \<^verbatim>\<open>AttributeError\<close>, whatever the arguments; the
  statements after it, which would set four attributes and create the ten datasets from
  \<^verbatim>\<open>self.ang_arr[idxs]\<close> and the like, are never reached. Nothing has been written to
  the file by then: a file that was there is unchanged, and a file that
  \<^verbatim>\<open>h5py.File(path,'a')\<close> has just created is empty, no container.\<close>

definition write_subset ::
  "('r, 'c) builder \<Rightarrow> ('r, 'c) fs \<Rightarrow> string \<Rightarrow> string \<Rightarrow> nat list \<Rightarrow> clock
     \<Rightarrow> ('r, 'c) fs \<times> (py_error + unit)" where
  "write_subset self fs path sub_type idxs clk = (fs, Inl AttributeError)"

text \<open>\<^verbatim>\<open>Builder.build_subset\<close>.\<close>

definition build_subset ::
  "('r, 'c) builder \<Rightarrow> ('r, 'c) fs \<Rightarrow> string \<Rightarrow> string \<Rightarrow> nat list \<Rightarrow> clock
     \<Rightarrow> ('r, 'c) fs \<times> (py_error + unit)" where
  "build_subset self fs src sub_type idxs clk =
     (case read_full self fs src of
        Inl e \<Rightarrow> (fs, Inl e)
      | Inr self' \<Rightarrow>
          write_subset self' fs (str_replace src ''.h5'' (''_'' @ sub_type @ ''.h5''))
            sub_type idxs clk)"

text \<open>What the specification asks of a subset: a container whose rows are the rows of
  the source at the given indices, in the order of the list.\<close>

definition subset_rows :: "('r, 'c) container \<Rightarrow> nat list \<Rightarrow> ('r, 'c) container \<Rightarrow> bool" where
  "subset_rows src idxs c \<longleftrightarrow>
     attr_length (attrs c) = length idxs
     \<and> angles c = map (\<lambda>i. angles src ! i) idxs
     \<and> positions c = map (\<lambda>i. positions src ! i) idxs
     \<and> coordinates_depthmaps c = map (\<lambda>i. coordinates_depthmaps src ! i) idxs
     \<and> coordinates_pointmaps c = map (\<lambda>i. coordinates_pointmaps src ! i) idxs
     \<and> images_original c = map (\<lambda>i. images_original src ! i) idxs
     \<and> images_segmented c = map (\<lambda>i. images_segmented src ! i) idxs
     \<and> images_rois c = map (\<lambda>i. images_rois src ! i) idxs
     \<and> paths_jsons c = map (\<lambda>i. paths_jsons src ! i) idxs
     \<and> paths_depthmaps c = map (\<lambda>i. paths_depthmaps src ! i) idxs
     \<and> paths_images c = map (\<lambda>i. paths_images src ! i) idxs"

subsection \<open>Welding two containers\<close>

text \<open>\<^verbatim>\<open>assert a == b\<close> on two scalar attributes (the version, the depth scale, an
  intrinsics identifier).\<close>

definition assert_scalars_equal :: "'a \<Rightarrow> 'a \<Rightarrow> string \<Rightarrow> py_error option" where
  "assert_scalars_equal a b msg = (if a = b then None else Some (AssertionError msg))"

text \<open>\<^verbatim>\<open>assert a == b\<close> on two array attributes. A resolution is stored from
  \<^verbatim>\<open>arr[0].shape\<close> and read back from the file as a one-dimensional integer array.
  NumPy compares two arrays entry by entry, after broadcasting an array of one entry, and
  the result is an array of truth values; \<^verbatim>\<open>assert\<close> asks for its truth value, which
  NumPy refuses with \<^verbatim>\<open>ValueError\<close> for an array of two or more entries, whatever the
  entries are. An array of one entry has the truth value of that entry and an empty one is
  false; arrays that cannot be broadcast compare as unequal.\<close>

definition assert_arrays_equal :: "nat list \<Rightarrow> nat list \<Rightarrow> string \<Rightarrow> py_error option" where
  "assert_arrays_equal a b msg =
     (if length a = length b \<or> length a = 1 \<or> length b = 1
      then (let k = (if length a = 1 then length b else length a)
            in if 2 \<le> k then Some ValueError
               else if k = 1 \<and> hd a = hd b then None
               else Some (AssertionError msg))
      else Some (AssertionError msg))"

text \<open>\<^verbatim>\<open>assert a_attrs[attribute] == b_attrs[attribute], f"{attribute} must be equal to join datasets"\<close>.\<close>

definition assert_attribute :: "string \<Rightarrow> 'c h5attrs \<Rightarrow> 'c h5attrs \<Rightarrow> py_error option" where
  "assert_attribute attribute a b =
     (let msg = attribute @ '' must be equal to join datasets''
      in if attribute = ''version''
           then assert_scalars_equal (attr_version a) (attr_version b) msg
         else if attribute = ''original_resolution''
           then assert_arrays_equal (attr_original_resolution a) (attr_original_resolution b) msg
         else if attribute = ''segmented_resolution''
           then assert_arrays_equal (attr_segmented_resolution a) (attr_segmented_resolution b) msg
         else if attribute = ''depth_intrinsics''
           then assert_scalars_equal (attr_depth_intrinsics a) (attr_depth_intrinsics b) msg
         else if attribute = ''color_intrinsics''
           then assert_scalars_equal (attr_color_intrinsics a) (attr_color_intrinsics b) msg
         else if attribute = ''depth_scale''
           then assert_scalars_equal (attr_depth_scale a) (attr_depth_scale b) msg
         else Some KeyError)"

text \<open>The loop of assertions at the head of \<^verbatim>\<open>weld\<close>: it ends at the first exception.\<close>

fun assert_attributes :: "string list \<Rightarrow> 'c h5attrs \<Rightarrow> 'c h5attrs \<Rightarrow> py_error option" where
  "assert_attributes [] a b = None"
| "assert_attributes (attribute # rest) a b =
     (case assert_attribute attribute a b of
        Some e \<Rightarrow> Some e
      | None \<Rightarrow> assert_attributes rest a b)"

text \<open>\<^verbatim>\<open>np.vstack\<close> of two arrays of two or more dimensions joins them along the first
  axis; of two one-dimensional arrays it makes a two-row array, and raises when they
  differ in length.\<close>

definition vstack :: "'a list \<Rightarrow> 'a list \<Rightarrow> 'a list" where
  "vstack xs ys = xs @ ys"

definition vstack_1d :: "'a list \<Rightarrow> 'a list \<Rightarrow> py_error + 'a list list" where
  "vstack_1d xs ys = (if length xs = length ys then Inr [xs, ys] else Inl ValueError)"

text \<open>\<^verbatim>\<open>Builder.weld\<close>. Both files are opened for reading (the third handle, \<^verbatim>\<open>dst\<close>, is
  never used). The last statement calls \<^verbatim>\<open>self._save_full()\<close> with no argument.\<close>

definition weld ::
  "('r, 'c) world \<Rightarrow> ('r, 'c) builder \<Rightarrow> ('r, 'c) fs \<Rightarrow> string \<Rightarrow> string \<Rightarrow> string \<Rightarrow> string
     \<Rightarrow> clock \<Rightarrow> ('r, 'c) fs \<times> (py_error + string)" where
  "weld w self fs path_a path_b dst_dir name_arg clk =
     (case fs path_a of
        None \<Rightarrow> (fs, Inl FileNotFoundError)
      | Some a \<Rightarrow>
     (case fs path_b of
        None \<Rightarrow> (fs, Inl FileNotFoundError)
      | Some b \<Rightarrow>
     (case assert_attributes
             [''version'', ''original_resolution'', ''segmented_resolution'',
              ''depth_intrinsics'', ''color_intrinsics'', ''depth_scale'']
             (attrs a) (attrs b) of
        Some e \<Rightarrow> (fs, Inl e)
      | None \<Rightarrow>
          (let self = self\<lparr>self_length := attr_length (attrs a) + attr_length (attrs b),
                           name := name_arg, dest_path := dst_dir,
                           ang_arr := vstack (angles a) (angles b),
                           pos_arr := vstack (positions a) (positions b),
                           depthmap_arr := vstack (coordinates_depthmaps a) (coordinates_depthmaps b),
                           pointmap := vstack (coordinates_pointmaps a) (coordinates_pointmaps b),
                           orig_img_arr := vstack (images_original a) (images_original b),
                           segmented_img_arr := vstack (images_segmented a) (images_segmented b),
                           rois := vstack (images_rois a) (images_rois b)\<rparr>
           in case vstack_1d (paths_jsons a) (paths_jsons b) of
                Inl e \<Rightarrow> (fs, Inl e)
              | Inr jsons2 \<Rightarrow>
           (case vstack_1d (paths_depthmaps a) (paths_depthmaps b) of
                Inl e \<Rightarrow> (fs, Inl e)
              | Inr maps2 \<Rightarrow>
           (case vstack_1d (paths_images a) (paths_images b) of
                Inl e \<Rightarrow> (fs, Inl e)
              | Inr imgs2 \<Rightarrow> call_save_full w self fs [] clk))))))"

text \<open>What the specification asks of a weld: a container whose frames are those of \<open>a\<close>
  followed by those of \<open>b\<close>.\<close>

definition welded_frames :: "('r, 'c) container \<Rightarrow> ('r, 'c) container \<Rightarrow> ('r, 'c) container \<Rightarrow> bool"
  where
  "welded_frames a b c \<longleftrightarrow>
     attr_length (attrs c) = attr_length (attrs a) + attr_length (attrs b)
     \<and> angles c = angles a @ angles b
     \<and> positions c = positions a @ positions b
     \<and> coordinates_depthmaps c = coordinates_depthmaps a @ coordinates_depthmaps b
     \<and> coordinates_pointmaps c = coordinates_pointmaps a @ coordinates_pointmaps b
     \<and> images_original c = images_original a @ images_original b
     \<and> images_segmented c = images_segmented a @ images_segmented b
     \<and> images_rois c = images_rois a @ images_rois b
     \<and> paths_jsons c = paths_jsons a @ paths_jsons b
     \<and> paths_depthmaps c = paths_depthmaps a @ paths_depthmaps b
     \<and> paths_images c = paths_images a @ paths_images b"

subsection \<open>The length invariant\<close>


subsection \<open>Opening a dataset by name\<close>

text \<open>\<^verbatim>\<open>dataset_version\<close> of \<^verbatim>\<open>robotpose/dataset.py\<close>.\<close>

definition dataset_version :: real where
  "dataset_version = 1.0"

text \<open>A compiled dataset directory: the names of the files in it, and the numeric entries
  of its \<^verbatim>\<open>ds.json\<close> when that file is there.\<close>

record ds_dir =
  ds_files :: "string list"
  ds_json :: "(string \<rightharpoonup> real) option"

definition isfile :: "ds_dir \<Rightarrow> string \<Rightarrow> bool" where
  "isfile dir f \<longleftrightarrow> (if f = ''ds.json'' then ds_json dir \<noteq> None else f \<in> set (ds_files dir))"

text \<open>\<^verbatim>\<open>Dataset.validate\<close>. Opening a missing \<^verbatim>\<open>ds.json\<close> raises; a missing
  \<^verbatim>\<open>ds_ver\<close> key is the \<^verbatim>\<open>KeyError\<close> that the method catches.\<close>

definition validate :: "ds_dir \<Rightarrow> py_error + bool" where
  "validate dir =
     (let ang = isfile dir ''ang.npy'';
          ds = isfile dir ''ds.json'';
          ply = isfile dir ''ply.npy'';
          seg_img = isfile dir ''seg_img.npy'';
          og_img = isfile dir ''og_img.npy'';
          seg_vid = isfile dir ''seg_vid.avi'';
          og_vid = isfile dir ''og_vid.avi''
      in case ds_json dir of
           None \<Rightarrow> Inl FileNotFoundError
         | Some d \<Rightarrow>
             (case d ''ds_ver'' of
                None \<Rightarrow> Inr False
              | Some ds_ver \<Rightarrow>
                  if py_int ds_ver \<noteq> py_int dataset_version then Inr False
                  else Inr (ang \<and> ds \<and> ply \<and> seg_img \<and> og_img \<and> seg_vid \<and> og_vid)))"

text \<open>What the constructor of \<^verbatim>\<open>Dataset\<close> sees: the datasets directory, the names of the
  directories in it and in its \<^verbatim>\<open>raw\<close> subdirectory (in scan order), the content of a
  compiled directory, and whether \<^verbatim>\<open>build\<close> of a raw directory raises.\<close>

record ds_world =
  datasets :: string
  scandir_datasets :: "string list"
  scandir_raw :: "string list"
  dir_at :: "string \<Rightarrow> ds_dir"
  build_raises :: "string \<Rightarrow> py_error option"

text \<open>The outcome of the search: the selected path and name, and the raw directory that
  was compiled on the way, if any.\<close>

record found =
  found_path :: string
  found_name :: string
  compiled_from :: "string option"

text \<open>The first loop of \<^verbatim>\<open>Dataset.__init__\<close>, over the compiled directories: \<open>None\<close> when
  no name contains the query.\<close>

fun search_compiled :: "ds_world \<Rightarrow> string \<Rightarrow> string list \<Rightarrow> (py_error + found) option" where
  "search_compiled w query [] = None"
| "search_compiled w query (nm # rest) =
     (let ds = path_join (datasets w) nm
      in if str_in query nm
         then (case validate (dir_at w ds) of
                 Inl e \<Rightarrow> Some (Inl e)
               | Inr True \<Rightarrow> Some (Inr \<lparr>found_path = ds, found_name = nm, compiled_from = None\<rparr>)
               | Inr False \<Rightarrow>
                   (let raw = path_join (path_join (datasets w) ''raw'') nm
                    in case build_raises w raw of
                         Some e \<Rightarrow> Some (Inl e)
                       | None \<Rightarrow>
                           Some (Inr \<lparr>found_path = ds, found_name = nm,
                                      compiled_from = Some raw\<rparr>)))
         else search_compiled w query rest)"

text \<open>The second loop, over the raw directories.\<close>

fun search_raw :: "ds_world \<Rightarrow> string \<Rightarrow> string list \<Rightarrow> (py_error + found) option" where
  "search_raw w query [] = None"
| "search_raw w query (nm # rest) =
     (let ds = path_join (path_join (datasets w) ''raw'') nm
      in if str_in query nm
         then (case build_raises w ds of
                 Some e \<Rightarrow> Some (Inl e)
               | None \<Rightarrow>
                   Some (Inr \<lparr>found_path = path_join (datasets w) nm, found_name = nm,
                              compiled_from = Some ds\<rparr>))
         else search_raw w query rest)"

text \<open>The search of \<^verbatim>\<open>Dataset.__init__\<close>, up to the assertion that a dataset was found.\<close>

definition find_dataset :: "ds_world \<Rightarrow> string \<Rightarrow> py_error + found" where
  "find_dataset w query =
     (case search_compiled w query (scandir_datasets w) of
        Some r \<Rightarrow> r
      | None \<Rightarrow>
          (case search_raw w query (scandir_raw w) of
             Some r \<Rightarrow> r
           | None \<Rightarrow>
               Inl (AssertionError (''No matching dataset found for '' @ [CHR 0x27] @ query @ [CHR 0x27]))))"

subsection \<open>A small capture\<close>

text \<open>Two frames under \<^verbatim>\<open>raw/set1\<close>, with images and maps as numbers, used to run the
  definitions on concrete input.\<close>

definition ex_frame :: "real \<Rightarrow> nat json_frame" where
  "ex_frame s =
     \<lparr>rs_depth_scale = s, rs_intrin_depth = 7, rs_intrin_color = 8,
      joints = replicate 6 (1, 0, 0, 0)\<rparr>"

definition ex_world :: "(real, nat) world" where
  "ex_world =
     \<lparr>DATASETS = ''data'',
      basename_normpath = (\<lambda>p. ''set1''),
      walk = (\<lambda>p. [(''raw/set1'', [''0.json'', ''0.npy'', ''0.png'', ''1.json'', ''1.npy'', ''1.png''])]),
      json_load = (\<lambda>p. ex_frame 2),
      imread = (\<lambda>p. if p = ''raw/set1/0.png'' then 5 else 6),
      np_load = (\<lambda>p. if p = ''raw/set1/0.npy'' then 10 else 20),
      shape = (\<lambda>r. [4, 4, 3]),
      zeros = (\<lambda>shp. 0),
      scale = (\<lambda>s d. s * d),
      segmentImage = (\<lambda>img. (img + 1, [0, 0, 4, 4])),
      seg_height = 4,
      seg_width = 4,
      crop = (\<lambda>d i m r. (i + m, d + m)),
      workerCount = 2\<rparr>"

text \<open>The same capture with the second depth map and image missing, and with a second
  frame recorded at another depth scale.\<close>

definition ex_world_missing :: "(real, nat) world" where
  "ex_world_missing =
     ex_world\<lparr>walk := (\<lambda>p. [(''raw/set1'', [''0.json'', ''0.npy'', ''0.png'', ''1.json''])])\<rparr>"

definition ex_world_mixed :: "(real, nat) world" where
  "ex_world_mixed =
     ex_world\<lparr>json_load := (\<lambda>p. if p = ''raw/set1/0.json'' then ex_frame 2 else ex_frame 3)\<rparr>"

text \<open>The same capture listed by the walk in another order.\<close>

definition ex_world_unsorted :: "(real, nat) world" where
  "ex_world_unsorted =
     ex_world\<lparr>walk := (\<lambda>p. [(''raw/set1'', [''1.json'', ''0.json'', ''0.npy'', ''1.npy'', ''1.png'', ''0.png''])])\<rparr>"

definition ex_clock :: clock where
  "ex_clock = \<lparr>now_build = ''day1'', now_compile = ''day1'', time_now = 9\<rparr>"

definition ex_self :: "(real, nat) builder" where
  "ex_self =
     \<lparr>build_start_time = 1, dest_path = [], name = [],
      jsons_p = [], maps_p = [], imgs_p = [], jsons = [], maps = [], imgs = [],
      self_length = 2, ang_arr = [], pos_arr = [],
      depth_scale = 2, intrin_depth = 7, intrin_color = 8,
      img_height = 4, img_width = 4,
      orig_img_arr = [5, 6], depthmap_arr = [20, 40],
      segmented_img_arr = [], pointmap = [], mask_arr = [], rois = [],
      closed_file = None\<rparr>"

text \<open>A container of five frames, and a file system that holds it under two names.\<close>

definition ex_attrs :: "nat h5attrs" where
  "ex_attrs =
     \<lparr>attr_name = ''set1'', attr_version = 1, attr_length = 5, attr_build_date = ''day0'',
      attr_compile_date = ''day0'', attr_compile_time = 5, attr_type = ''full'',
      attr_original_resolution = [4, 4, 3], attr_segmented_resolution = [2, 2, 3],
      attr_depth_intrinsics = 7, attr_color_intrinsics = 8, attr_depth_scale = 2\<rparr>"

definition ex_container :: "(real, nat) container" where
  "ex_container =
     \<lparr>attrs = ex_attrs,
      angles = [replicate 6 0, replicate 6 1, replicate 6 2, replicate 6 3, replicate 6 4],
      positions = [replicate 6 (0, 0, 0), replicate 6 (1, 0, 0), replicate 6 (2, 0, 0),
                   replicate 6 (3, 0, 0), replicate 6 (4, 0, 0)],
      coordinates_depthmaps = [10, 11, 12, 13, 14],
      depthmaps_depth_scale = 2,
      coordinates_pointmaps = [20, 21, 22, 23, 24],
      images_original = [30, 31, 32, 33, 34],
      images_segmented = [40, 41, 42, 43, 44],
      images_rois = [[0, 0, 2, 2], [1, 0, 2, 2], [2, 0, 2, 2], [3, 0, 2, 2], [4, 0, 2, 2]],
      paths_jsons = [''/0.json'', ''/1.json'', ''/2.json'', ''/3.json'', ''/4.json''],
      paths_depthmaps = [''/0.npy'', ''/1.npy'', ''/2.npy'', ''/3.npy'', ''/4.npy''],
      paths_images = [''/0.png'', ''/1.png'', ''/2.png'', ''/3.png'', ''/4.png'']\<rparr>"

definition ex_fs :: "(real, nat) fs" where
  "ex_fs = [''a.h5'' \<mapsto> ex_container, ''b.h5'' \<mapsto> ex_container]"

text \<open>The same container recorded at another resolution.\<close>

definition ex_container_hd :: "(real, nat) container" where
  "ex_container_hd = ex_container\<lparr>attrs := ex_attrs\<lparr>attr_original_resolution := [8, 8, 3]\<rparr>\<rparr>"

definition ex_fs_hd :: "(real, nat) fs" where
  "ex_fs_hd = [''a.h5'' \<mapsto> ex_container, ''b.h5'' \<mapsto> ex_container_hd]"

text \<open>Compiled dataset directories: one of the current format, one of an older major
  version, one with no version recorded.\<close>

definition ex_all_files :: "string list" where
  "ex_all_files = [''ang.npy'', ''ply.npy'', ''seg_img.npy'', ''og_img.npy'', ''seg_vid.avi'', ''og_vid.avi'']"

definition ex_dir_current :: ds_dir where
  "ex_dir_current = \<lparr>ds_files = ex_all_files, ds_json = Some [''ds_ver'' \<mapsto> 1.4, ''frames'' \<mapsto> 5]\<rparr>"

definition ex_dir_old :: ds_dir where
  "ex_dir_old = \<lparr>ds_files = ex_all_files, ds_json = Some [''ds_ver'' \<mapsto> 0.9, ''frames'' \<mapsto> 5]\<rparr>"

definition ex_dir_unversioned :: ds_dir where
  "ex_dir_unversioned = \<lparr>ds_files = ex_all_files, ds_json = Some [''frames'' \<mapsto> 5]\<rparr>"

definition ex_ds_world :: ds_world where
  "ex_ds_world =
     \<lparr>datasets = ''data'',
      scandir_datasets = [''raw'', ''set10'', ''set1''],
      scandir_raw = [''set10'', ''set1'', ''set2''],
      dir_at = (\<lambda>p. if p = ''data/set10'' then ex_dir_current else ex_dir_old),
      build_raises = (\<lambda>p. None)\<rparr>"

definition ex_ds_world_old :: ds_world where
  "ex_ds_world_old = ex_ds_world\<lparr>dir_at := (\<lambda>p. ex_dir_old)\<rparr>"

text \<open>A datasets directory as the builder leaves it: the \<^verbatim>\<open>raw\<close> directory, which holds
  no \<^verbatim>\<open>ds.json\<close>, is scanned with the compiled datasets.\<close>

definition ex_dir_raw :: ds_dir where
  "ex_dir_raw = \<lparr>ds_files = [], ds_json = None\<rparr>"

definition ex_ds_world_raw :: ds_world where
  "ex_ds_world_raw =
     \<lparr>datasets = ''data'',
      scandir_datasets = [''raw'', ''data_a''],
      scandir_raw = [''data_a''],
      dir_at = (\<lambda>p. if p = ''data/raw'' then ex_dir_raw else ex_dir_current),
      build_raises = (\<lambda>p. None)\<rparr>"

section \<open>Properties\<close>

subsection \<open>The cropping stage keeps the order of the frames\<close>

lemma write_back_length:
  "length (fst (write_back idxs start outs (seg, pm))) = length seg \<and>
   length (snd (write_back idxs start outs (seg, pm))) = length pm"
  by (induction idxs arbitrary: seg pm) auto

lemma write_back_nth:
  "i < length seg \<Longrightarrow> i < length pm \<Longrightarrow>
   fst (write_back idxs start outs (seg, pm)) ! i =
     (if i \<in> set idxs then fst (outs ! (i - start)) else seg ! i) \<and>
   snd (write_back idxs start outs (seg, pm)) ! i =
     (if i \<in> set idxs then snd (outs ! (i - start)) else pm ! i)"
proof (induction idxs arbitrary: seg pm)
  case Nil
  then show ?case by simp
next
  case (Cons idx rest)
  then show ?case by (simp add: nth_list_update)
qed

lemma crop_batches_inv:
  shows "0 < bs \<Longrightarrow> 1 \<le> n \<Longrightarrow> length seg = self_length self \<Longrightarrow> length pm = self_length self \<Longrightarrow> N = self_length self \<Longrightarrow>
    \<exists>b' seg' pm'. crop_batches w n self (range_step start N bs) (bs, seg, pm) = Inr (b', seg', pm')
      \<and> length seg' = N \<and> length pm' = N
      \<and> (\<forall>i<N. seg' ! i = (if start \<le> i then fst (crop_frame w self i) else seg ! i))
      \<and> (\<forall>i<N. pm' ! i = (if start \<le> i then snd (crop_frame w self i) else pm ! i))"
proof (induction start N bs arbitrary: seg pm rule: range_step.induct)
  case (1 start stop step)
  show ?case
  proof (cases "step = 0 \<or> stop \<le> start")
    case True
    then show ?thesis using 1(2-) by (auto simp add: range_step.simps)
  next
    case False
    define b where "b = (if start + step \<ge> stop then stop - start else step)"
    define outs where "outs = map (\<lambda>idx. crop_frame w self idx) [start..<start + b]"
    define seg1 where "seg1 = fst (write_back [start..<start + b] start outs (seg, pm))"
    define pm1 where "pm1 = snd (write_back [start..<start + b] start outs (seg, pm))"
    have len1: "length seg1 = self_length self" "length pm1 = self_length self"
      using write_back_length[of "[start..<start + b]" start outs seg pm] 1(4,5)
      by (simp_all add: seg1_def pm1_def)
    have ble: "start + b \<le> stop" using False by (auto simp: b_def)
    have nth1: "\<forall>i<stop. seg1 ! i = (if start \<le> i \<and> i < start + b then fst (crop_frame w self i) else seg ! i)"
               "\<forall>i<stop. pm1 ! i = (if start \<le> i \<and> i < start + b then snd (crop_frame w self i) else pm ! i)"
      using write_back_nth[of _ seg pm "[start..<start + b]" start outs] 1(4,5,6)
      by (auto simp: seg1_def pm1_def outs_def)
    have step: "crop_batches w n self (range_step start stop step) (step, seg, pm) =
        crop_batches w n self (range_step (start + step) stop step) (b, seg1, pm1)"
      using False 1(2,3,6)
      by (subst range_step.simps)
         (simp add: Let_def pool_starmap_def b_def seg1_def pm1_def outs_def crop_frame_def
                    split_beta o_def)
    show ?thesis
    proof (cases "start + step \<ge> stop")
      case True
      then have "range_step (start + step) stop step = []" by (simp add: range_step.simps)
      moreover have "start + b = stop" using True False by (simp add: b_def)
      ultimately show ?thesis using step len1 nth1 1(6) by auto
    next
      case F2: False
      then have beq: "b = step" by (simp add: b_def)
      from 1(1)[OF False 1(2,3) len1 1(6)] obtain b' seg' pm' where
        r: "crop_batches w n self (range_step (start + step) stop step) (step, seg1, pm1) = Inr (b', seg', pm')"
        "length seg' = stop" "length pm' = stop"
        "\<forall>i<stop. seg' ! i = (if start + step \<le> i then fst (crop_frame w self i) else seg1 ! i)"
        "\<forall>i<stop. pm' ! i = (if start + step \<le> i then snd (crop_frame w self i) else pm1 ! i)"
        by blast
      show ?thesis using step r nth1 beq by auto
    qed
  qed
qed

lemma segment_loop_length:
  "length (fst (segment_loop w self idxs (masks, rs))) = length masks \<and>
   length (snd (segment_loop w self idxs (masks, rs))) = length rs"
  by (induction idxs arbitrary: masks rs) (auto split: prod.splits)

lemma crop_data_sequential:
  assumes "0 < bs" and "1 \<le> n"
    and "length (segmented_img_arr self) = self_length self"
    and "length (pointmap self) = self_length self"
  shows "crop_data w bs n self =
           Inr (self\<lparr>segmented_img_arr := map fst (crop_sequential w self),
                     pointmap := map snd (crop_sequential w self)\<rparr>)"
proof -
  from crop_batches_inv[OF assms refl, of w 0] obtain b' seg' pm' where
    r: "crop_batches w n self (range_step 0 (self_length self) bs)
          (bs, segmented_img_arr self, pointmap self) = Inr (b', seg', pm')"
      "length seg' = self_length self" "length pm' = self_length self"
      "\<forall>i<self_length self. seg' ! i = fst (crop_frame w self i)"
      "\<forall>i<self_length self. pm' ! i = snd (crop_frame w self i)"
    by auto
  have "seg' = map fst (crop_sequential w self)"
    using r(2,4) by (intro nth_equalityI) (simp_all add: crop_sequential_def)
  moreover have "pm' = map snd (crop_sequential w self)"
    using r(3,5) by (intro nth_equalityI) (simp_all add: crop_sequential_def)
  ultimately show ?thesis using r(1) assms(1) by (simp add: crop_data_def)
qed

lemma crop_frame_cong:
  "depthmap_arr a = depthmap_arr b \<Longrightarrow> orig_img_arr a = orig_img_arr b \<Longrightarrow>
   mask_arr a = mask_arr b \<Longrightarrow> rois a = rois b \<Longrightarrow> crop_frame w a = crop_frame w b"
  by (rule ext) (simp add: crop_frame_def)

lemma crop_sequential_cong:
  "depthmap_arr a = depthmap_arr b \<Longrightarrow> orig_img_arr a = orig_img_arr b \<Longrightarrow>
   mask_arr a = mask_arr b \<Longrightarrow> rois a = rois b \<Longrightarrow> self_length a = self_length b \<Longrightarrow>
   crop_sequential w a = crop_sequential w b"
  by (simp add: crop_sequential_def crop_frame_cong[of a b])

text \<open>
  C1. After \<^verbatim>\<open>_segment_images_and_maps\<close>, for every frame index \<open>i\<close> below the length
  of the capture, \<open>segmented_img_arr[i]\<close> and \<open>pointmap[i]\<close> are the two components of
  \<open>crop(depthmap_arr[i], orig_img_arr[i], mask_arr[i], rois[i])\<close>; the two arrays are
  those of the sequential application of the Cropper to all frames; and the cropping
  block gives this same result on the same inputs for every positive batch size and
  every pool of at least one worker, in particular for batch size 1 and one worker.
\<close>

theorem crop_order_preservation:
  assumes "1 \<le> workerCount w" and "0 < batch_size" and "1 \<le> n"
    and "length (depthmap_arr self) = self_length self"
    and "length (orig_img_arr self) = self_length self"
  shows "\<exists>self'. segment_images_and_maps w self = Inr self'
     \<and> self_length self' = self_length self
     \<and> depthmap_arr self' = depthmap_arr self \<and> orig_img_arr self' = orig_img_arr self
     \<and> length (mask_arr self') = self_length self \<and> length (rois self') = self_length self
     \<and> length (segmented_img_arr self') = self_length self
     \<and> length (pointmap self') = self_length self
     \<and> (\<forall>i<self_length self.
           (segmented_img_arr self' ! i, pointmap self' ! i) =
             crop w (depthmap_arr self' ! i) (orig_img_arr self' ! i) (mask_arr self' ! i)
               (rois self' ! i))
     \<and> segmented_img_arr self' = map fst (crop_sequential w self')
     \<and> pointmap self' = map snd (crop_sequential w self')
     \<and> (\<forall>seg pm. length seg = self_length self \<and> length pm = self_length self \<longrightarrow>
           crop_data w batch_size n (self'\<lparr>segmented_img_arr := seg, pointmap := pm\<rparr>) = Inr self'
         \<and> crop_data w 1 1 (self'\<lparr>segmented_img_arr := seg, pointmap := pm\<rparr>) = Inr self')"
proof -
  define N where "N = self_length self"
  define z where "z = zeros w [seg_height w, seg_width w, 3]"
  obtain masks rs where sl:
    "segment_loop w self [0..<N]
       (replicate N (zeros w [img_height self, img_width self]), replicate N (replicate 4 0))
     = (masks, rs)"
    by (cases "segment_loop w self [0..<N]
       (replicate N (zeros w [img_height self, img_width self]), replicate N (replicate 4 0))")
  have lens: "length masks = N" "length rs = N"
    using segment_loop_length[of w self "[0..<N]"
        "replicate N (zeros w [img_height self, img_width self])" "replicate N (replicate 4 0)"] sl
    by simp_all
  define pre where "pre = self\<lparr>segmented_img_arr := replicate N z, pointmap := replicate N z,
                              mask_arr := masks, rois := astype_int rs\<rparr>"
  define self' where "self' = pre\<lparr>segmented_img_arr := map fst (crop_sequential w pre),
                                  pointmap := map snd (crop_sequential w pre)\<rparr>"
  have stage: "segment_images_and_maps w self = crop_data w 100 (workerCount w) pre"
    using sl by (simp add: segment_images_and_maps_def Let_def N_def pre_def z_def)
  have seq: "crop_sequential w self' = crop_sequential w pre"
    by (rule crop_sequential_cong) (simp_all add: self'_def)
  have len_seq: "length (crop_sequential w pre) = N"
    by (simp add: crop_sequential_def pre_def N_def)
  have any: "crop_data w bs k (self'\<lparr>segmented_img_arr := seg, pointmap := pm\<rparr>) = Inr self'"
    if "0 < bs" "1 \<le> k" "length seg = N" "length pm = N" for bs k seg pm
  proof -
    let ?b = "self'\<lparr>segmented_img_arr := seg, pointmap := pm\<rparr>"
    have "crop_sequential w ?b = crop_sequential w pre"
      by (rule crop_sequential_cong) (simp_all add: self'_def)
    moreover have "self_length ?b = N" by (simp add: self'_def pre_def N_def)
    ultimately show ?thesis
      using crop_data_sequential[of bs k ?b w] that by (simp add: self'_def)
  qed
  have pre_is: "pre = self'\<lparr>segmented_img_arr := replicate N z, pointmap := replicate N z\<rparr>"
    by (simp add: self'_def pre_def)
  have run: "segment_images_and_maps w self = Inr self'"
    unfolding stage using any[of 100 "workerCount w" "replicate N z" "replicate N z"] assms(1)
    by (simp add: pre_is)
  have pointwise: "(segmented_img_arr self' ! i, pointmap self' ! i) =
      crop w (depthmap_arr self' ! i) (orig_img_arr self' ! i) (mask_arr self' ! i) (rois self' ! i)"
    if "i < N" for i
  proof -
    have "crop_sequential w pre ! i = crop_frame w self' i"
      using that seq[symmetric] by (simp add: crop_sequential_def self'_def pre_def N_def)
    then show ?thesis using that len_seq
      by (simp add: self'_def crop_frame_def)
  qed
  show ?thesis
  proof (intro exI[of _ self'] conjI allI impI)
    show "segment_images_and_maps w self = Inr self'" by (rule run)
  qed (use pointwise any assms(2,3) lens len_seq seq in
        \<open>simp_all add: self'_def pre_def N_def astype_int_def\<close>)
qed

theorem crop_order_preservation_witness:
  "1 \<le> workerCount ex_world \<and> (0::nat) < 3 \<and> (1::nat) \<le> 4
   \<and> length (depthmap_arr ex_self) = self_length ex_self
   \<and> length (orig_img_arr ex_self) = self_length ex_self
   \<and> (\<exists>self'. segment_images_and_maps ex_world ex_self = Inr self'
         \<and> segmented_img_arr self' ! 1 = fst (crop ex_world 40 6 (mask_arr self' ! 1) (rois self' ! 1))
         \<and> crop_data ex_world 3 4
             (self'\<lparr>segmented_img_arr := [0, 0], pointmap := [0, 0]\<rparr>) = Inr self'
         \<and> crop_data ex_world 1 1
             (self'\<lparr>segmented_img_arr := [0, 0], pointmap := [0, 0]\<rparr>) = Inr self')"
proof -
  have h: "1 \<le> workerCount ex_world" "(0::nat) < 3" "(1::nat) \<le> 4"
    "length (depthmap_arr ex_self) = self_length ex_self"
    "length (orig_img_arr ex_self) = self_length ex_self"
    by (simp_all add: ex_world_def ex_self_def)
  from crop_order_preservation[OF h] obtain self' where
    r: "segment_images_and_maps ex_world ex_self = Inr self'"
       "depthmap_arr self' = depthmap_arr ex_self" "orig_img_arr self' = orig_img_arr ex_self"
       "\<forall>i<self_length ex_self.
           (segmented_img_arr self' ! i, pointmap self' ! i) =
             crop ex_world (depthmap_arr self' ! i) (orig_img_arr self' ! i) (mask_arr self' ! i)
               (rois self' ! i)"
       "\<forall>seg pm. length seg = self_length ex_self \<and> length pm = self_length ex_self \<longrightarrow>
           crop_data ex_world 3 4 (self'\<lparr>segmented_img_arr := seg, pointmap := pm\<rparr>) = Inr self'
         \<and> crop_data ex_world 1 1 (self'\<lparr>segmented_img_arr := seg, pointmap := pm\<rparr>) = Inr self'"
    by blast
  have "1 < self_length ex_self" by (simp add: ex_self_def)
  with r(4) have "(segmented_img_arr self' ! 1, pointmap self' ! 1) =
      crop ex_world (depthmap_arr self' ! 1) (orig_img_arr self' ! 1) (mask_arr self' ! 1)
        (rois self' ! 1)" by blast
  from arg_cong[OF this, of fst] have a: "segmented_img_arr self' ! 1 =
      fst (crop ex_world 40 6 (mask_arr self' ! 1) (rois self' ! 1))"
    unfolding r(2,3) by (simp add: ex_self_def)
  have b: "crop_data ex_world 3 4 (self'\<lparr>segmented_img_arr := [0, 0], pointmap := [0, 0]\<rparr>) = Inr self'
      \<and> crop_data ex_world 1 1 (self'\<lparr>segmented_img_arr := [0, 0], pointmap := [0, 0]\<rparr>) = Inr self'"
    using r(5) by (simp add: ex_self_def)
  show ?thesis using h r(1) a b by blast
qed

subsection \<open>Welding\<close>

lemma weld_result:
  "\<exists>e. weld w self fs path_a path_b dst_dir name_arg clk = (fs, Inl e)"
proof (cases "fs path_a")
  case None
  then show ?thesis by (simp add: weld_def)
next
  case a: (Some a)
  show ?thesis
  proof (cases "fs path_b")
    case None
    then show ?thesis using a by (simp add: weld_def)
  next
    case b: (Some b)
    show ?thesis
    proof (cases "assert_attributes
             [''version'', ''original_resolution'', ''segmented_resolution'',
              ''depth_intrinsics'', ''color_intrinsics'', ''depth_scale'']
             (attrs a) (attrs b)")
      case (Some e)
      then show ?thesis using a b by (simp add: weld_def)
    next
      case None
      have "\<exists>e. (case vstack_1d (paths_jsons a) (paths_jsons b) of
                Inl e \<Rightarrow> (fs, Inl e)
              | Inr jsons2 \<Rightarrow>
           (case vstack_1d (paths_depthmaps a) (paths_depthmaps b) of
                Inl e \<Rightarrow> (fs, Inl e)
              | Inr maps2 \<Rightarrow>
           (case vstack_1d (paths_images a) (paths_images b) of
                Inl e \<Rightarrow> (fs, Inl e)
              | Inr imgs2 \<Rightarrow> call_save_full w s fs [] clk))) = (fs, Inl e)" for s :: "('a, 'b) builder"
        by (simp split: sum.splits)
      then show ?thesis using a b None unfolding weld_def Let_def by simp
    qed
  qed
qed

text \<open>The assertions of \<^verbatim>\<open>weld\<close> on two containers whose resolutions have three entries,
  as every resolution stored from the shape of an image has.\<close>

lemma assert_version_differs:
  "attr_version a \<noteq> attr_version b \<Longrightarrow>
   assert_attributes (''version'' # rest) a b =
     Some (AssertionError ''version must be equal to join datasets'')"
  by (simp add: assert_attribute_def assert_scalars_equal_def)

lemma assert_resolution_refused:
  assumes "attr_version a = attr_version b"
    and "length (attr_original_resolution a) = 3" and "length (attr_original_resolution b) = 3"
  shows "assert_attributes (''version'' # ''original_resolution'' # rest) a b = Some ValueError"
  using assms
  by (simp add: assert_attribute_def assert_scalars_equal_def assert_arrays_equal_def)

lemma ex_weld_refused:
  "weld ex_world ex_self ex_fs ''a.h5'' ''b.h5'' ''out'' ''ab'' ex_clock = (ex_fs, Inl ValueError)"
proof -
  have "assert_attributes
          [''version'', ''original_resolution'', ''segmented_resolution'',
           ''depth_intrinsics'', ''color_intrinsics'', ''depth_scale'']
          (attrs ex_container) (attrs ex_container) = Some ValueError"
    by (rule assert_resolution_refused) (simp_all add: ex_container_def ex_attrs_def)
  then show ?thesis by (simp add: weld_def ex_fs_def)
qed

text \<open>
  C3. The specification asks that welding two compatible containers writes a new
  container with the frames of the first followed by those of the second. The code never
  does: whatever the inputs, \<^verbatim>\<open>weld\<close> ends in an exception and leaves the file system as
  it was. On two compatible containers (here twice the same five-frame container) the
  exception is the \<^verbatim>\<open>ValueError\<close> of the assertion on the original resolution, an array
  of three entries, and no container with the welded frames exists afterwards.
\<close>

theorem weld_never_writes:
  "fst (weld w self fs path_a path_b dst_dir name_arg clk) = fs
   \<and> (\<exists>e. snd (weld w self fs path_a path_b dst_dir name_arg clk) = Inl e)
   \<and> weld ex_world ex_self ex_fs ''a.h5'' ''b.h5'' ''out'' ''ab'' ex_clock = (ex_fs, Inl ValueError)
   \<and> \<not> (\<exists>c. fst (weld ex_world ex_self ex_fs ''a.h5'' ''b.h5'' ''out'' ''ab'' ex_clock) ''out/ab.h5'' = Some c
           \<and> welded_frames ex_container ex_container c)"
proof -
  have "ex_fs ''out/ab.h5'' = None" by (simp add: ex_fs_def)
  then show ?thesis
    using weld_result[of w self fs path_a path_b dst_dir name_arg clk] ex_weld_refused
    by auto
qed

text \<open>
  C4. The specification asks that \<^verbatim>\<open>weld\<close> fails with the assertion "\<open>attribute\<close> must be
  equal to join datasets" when the two containers differ in one of the six attributes.
  The code does so for the version only. For two containers of one version whose original
  resolutions have three entries each, the assertion on the original resolution raises
  \<^verbatim>\<open>ValueError\<close>, whether the resolutions, or any later attribute, agree or not. In both
  cases nothing is written and the file system, with both inputs, is what it was.
\<close>

theorem weld_assert_on_arrays:
  assumes "fs path_a = Some a" and "fs path_b = Some b"
  shows "(attr_version (attrs a) \<noteq> attr_version (attrs b) \<longrightarrow>
            weld w self fs path_a path_b dst_dir name_arg clk =
              (fs, Inl (AssertionError ''version must be equal to join datasets'')))
     \<and> (attr_version (attrs a) = attr_version (attrs b)
          \<and> length (attr_original_resolution (attrs a)) = 3
          \<and> length (attr_original_resolution (attrs b)) = 3 \<longrightarrow>
            weld w self fs path_a path_b dst_dir name_arg clk = (fs, Inl ValueError))"
proof (intro conjI impI)
  assume "attr_version (attrs a) \<noteq> attr_version (attrs b)"
  from assert_version_differs[OF this] show
    "weld w self fs path_a path_b dst_dir name_arg clk =
       (fs, Inl (AssertionError ''version must be equal to join datasets''))"
    using assms by (simp add: weld_def)
next
  assume "attr_version (attrs a) = attr_version (attrs b)
          \<and> length (attr_original_resolution (attrs a)) = 3
          \<and> length (attr_original_resolution (attrs b)) = 3"
  then have "assert_attributes
          [''version'', ''original_resolution'', ''segmented_resolution'',
           ''depth_intrinsics'', ''color_intrinsics'', ''depth_scale'']
          (attrs a) (attrs b) = Some ValueError"
    by (intro assert_resolution_refused) simp_all
  then show "weld w self fs path_a path_b dst_dir name_arg clk = (fs, Inl ValueError)"
    using assms by (simp add: weld_def)
qed

theorem weld_assert_on_arrays_witness:
  "ex_fs_hd ''a.h5'' = Some ex_container \<and> ex_fs_hd ''b.h5'' = Some ex_container_hd
   \<and> attr_version (attrs ex_container) = attr_version (attrs ex_container_hd)
   \<and> attr_original_resolution (attrs ex_container) = [4, 4, 3]
   \<and> attr_original_resolution (attrs ex_container_hd) = [8, 8, 3]
   \<and> weld ex_world ex_self ex_fs_hd ''a.h5'' ''b.h5'' ''out'' ''ab'' ex_clock =
       (ex_fs_hd, Inl ValueError)"
proof -
  have h: "ex_fs_hd ''a.h5'' = Some ex_container" "ex_fs_hd ''b.h5'' = Some ex_container_hd"
    by (simp_all add: ex_fs_hd_def)
  have v: "attr_version (attrs ex_container) = attr_version (attrs ex_container_hd)"
    and r: "attr_original_resolution (attrs ex_container) = [4, 4, 3]"
      "attr_original_resolution (attrs ex_container_hd) = [8, 8, 3]"
    by (simp_all add: ex_container_hd_def ex_container_def ex_attrs_def)
  have "attr_version (attrs ex_container) = attr_version (attrs ex_container_hd)
          \<and> length (attr_original_resolution (attrs ex_container)) = 3
          \<and> length (attr_original_resolution (attrs ex_container_hd)) = 3"
    using v r by simp
  from weld_assert_on_arrays[OF h, of ex_world ex_self "''out''" "''ab''" ex_clock,
      THEN conjunct2, THEN mp, OF this]
  show ?thesis using h v r by simp
qed

subsection \<open>Validation and lookup of a dataset\<close>

lemma str_in_sublist: "str_in q s \<longleftrightarrow> sublist q s"
  by (induction s) (simp_all add: sublist_Cons_right)

lemma str_in_iff: "str_in q s \<longleftrightarrow> (\<exists>ps ss. s = ps @ q @ ss)"
  by (simp add: str_in_sublist sublist_def)

lemma search_compiled_None:
  "search_compiled w q nms = None \<longleftrightarrow> (\<forall>nm\<in>set nms. \<not> str_in q nm)"
  by (induction nms) (auto simp: Let_def split: sum.splits bool.splits option.splits)

lemma search_raw_None:
  "search_raw w q nms = None \<longleftrightarrow> (\<forall>nm\<in>set nms. \<not> str_in q nm)"
  by (induction nms) (auto simp: Let_def split: option.splits)

lemma find_None_str_in: "find (str_in q) nms = None \<longleftrightarrow> (\<forall>nm\<in>set nms. \<not> str_in q nm)"
  by (auto simp: find_None_iff)

lemma search_compiled_first:
  "find (str_in q) nms = Some nm \<Longrightarrow>
   search_compiled w q nms =
     Some (case validate (dir_at w (path_join (datasets w) nm)) of
             Inl e \<Rightarrow> Inl e
           | Inr True \<Rightarrow> Inr \<lparr>found_path = path_join (datasets w) nm, found_name = nm,
                              compiled_from = None\<rparr>
           | Inr False \<Rightarrow>
               (case build_raises w (path_join (path_join (datasets w) ''raw'') nm) of
                  Some e \<Rightarrow> Inl e
                | None \<Rightarrow> Inr \<lparr>found_path = path_join (datasets w) nm, found_name = nm,
                      compiled_from = Some (path_join (path_join (datasets w) ''raw'') nm)\<rparr>))"
  by (induction nms) (auto simp: Let_def split: if_splits sum.splits bool.splits option.splits)

lemma search_raw_first:
  "find (str_in q) nms = Some nm \<Longrightarrow>
   search_raw w q nms =
     Some (case build_raises w (path_join (path_join (datasets w) ''raw'') nm) of
             Some e \<Rightarrow> Inl e
           | None \<Rightarrow> Inr \<lparr>found_path = path_join (datasets w) nm, found_name = nm,
                   compiled_from = Some (path_join (path_join (datasets w) ''raw'') nm)\<rparr>)"
  by (induction nms) (auto simp: Let_def split: if_splits option.splits)

lemma validate_True:
  "validate dir = Inr True \<Longrightarrow>
     \<exists>d v. ds_json dir = Some d \<and> d ''ds_ver'' = Some v \<and> py_int v = py_int dataset_version"
  by (auto simp: validate_def Let_def split: option.splits if_splits)

text \<open>
  C8. \<^verbatim>\<open>Dataset.validate\<close> answers \<open>True\<close> only for a directory whose \<^verbatim>\<open>ds.json\<close> records a
  version with the integer part of \<^verbatim>\<open>dataset_version\<close>. A directory whose recorded version
  has another integer part, or whose \<^verbatim>\<open>ds.json\<close> has no \<^verbatim>\<open>ds_ver\<close> entry, is reported
  invalid; and when the first directory whose name contains the query is invalid, the
  constructor compiles it again from the raw directory of that name before it goes on.
\<close>

theorem stale_version_invalid:
  "(validate dir = Inr True \<longrightarrow>
      (\<exists>d v. ds_json dir = Some d \<and> d ''ds_ver'' = Some v \<and> py_int v = py_int dataset_version))
   \<and> (\<forall>d v. ds_json dir = Some d \<and> d ''ds_ver'' = Some v \<and> py_int v \<noteq> py_int dataset_version
         \<longrightarrow> validate dir = Inr False)
   \<and> (\<forall>d. ds_json dir = Some d \<and> d ''ds_ver'' = None \<longrightarrow> validate dir = Inr False)
   \<and> (\<forall>nm. find (str_in query) (scandir_datasets w) = Some nm
            \<and> validate (dir_at w (path_join (datasets w) nm)) = Inr False
         \<longrightarrow> find_dataset w query =
               (case build_raises w (path_join (path_join (datasets w) ''raw'') nm) of
                  Some e \<Rightarrow> Inl e
                | None \<Rightarrow> Inr \<lparr>found_path = path_join (datasets w) nm, found_name = nm,
                      compiled_from = Some (path_join (path_join (datasets w) ''raw'') nm)\<rparr>))"
proof (intro conjI allI impI)
  show "\<exists>d v. ds_json dir = Some d \<and> d ''ds_ver'' = Some v \<and> py_int v = py_int dataset_version"
    if "validate dir = Inr True" using that by (rule validate_True)
  show "validate dir = Inr False"
    if "ds_json dir = Some d \<and> d ''ds_ver'' = Some v \<and> py_int v \<noteq> py_int dataset_version" for d v
    using that by (simp add: validate_def Let_def)
  show "validate dir = Inr False" if "ds_json dir = Some d \<and> d ''ds_ver'' = None" for d
    using that by (simp add: validate_def Let_def)
  show "find_dataset w query =
               (case build_raises w (path_join (path_join (datasets w) ''raw'') nm) of
                  Some e \<Rightarrow> Inl e
                | None \<Rightarrow> Inr \<lparr>found_path = path_join (datasets w) nm, found_name = nm,
                      compiled_from = Some (path_join (path_join (datasets w) ''raw'') nm)\<rparr>)"
    if "find (str_in query) (scandir_datasets w) = Some nm
            \<and> validate (dir_at w (path_join (datasets w) nm)) = Inr False" for nm
    using that search_compiled_first[of query "scandir_datasets w" nm w]
    by (simp add: find_dataset_def)
qed

lemma ex_validate:
  "validate ex_dir_current = Inr True" "validate ex_dir_old = Inr False"
  "validate ex_dir_unversioned = Inr False"
  by (simp_all add: validate_def ex_dir_current_def ex_dir_old_def ex_dir_unversioned_def
      ex_all_files_def isfile_def py_int_def dataset_version_def Let_def)

lemma ex_find: "find (str_in ''set1'') [''raw'', ''set10'', ''set1''] = Some ''set10''"
  by simp

theorem stale_version_invalid_witness:
  "validate ex_dir_current = Inr True
   \<and> (\<exists>d v. ds_json ex_dir_current = Some d \<and> d ''ds_ver'' = Some v \<and> py_int v = 1)
   \<and> py_int 0.9 \<noteq> py_int dataset_version \<and> validate ex_dir_old = Inr False
   \<and> validate ex_dir_unversioned = Inr False
   \<and> find_dataset ex_ds_world_old ''set1'' =
       Inr \<lparr>found_path = ''data/set10'', found_name = ''set10'',
            compiled_from = Some ''data/raw/set10''\<rparr>"
proof -
  have v: "py_int dataset_version = 1" by (simp add: py_int_def dataset_version_def)
  have a: "\<exists>d v. ds_json ex_dir_current = Some d \<and> d ''ds_ver'' = Some v \<and> py_int v = 1"
    using stale_version_invalid[of ex_dir_current] ex_validate(1) v by simp
  have o: "py_int 0.9 \<noteq> py_int dataset_version" by (simp add: py_int_def dataset_version_def)
  have "ds_json ex_dir_old = Some [''ds_ver'' \<mapsto> 0.9, ''frames'' \<mapsto> 5]
      \<and> [''ds_ver'' \<mapsto> 0.9, ''frames'' \<mapsto> 5::real] ''ds_ver'' = Some 0.9
      \<and> py_int 0.9 \<noteq> py_int dataset_version"
    using o by (simp add: ex_dir_old_def)
  then have b: "validate ex_dir_old = Inr False"
    using stale_version_invalid[of ex_dir_old] by blast
  have "ds_json ex_dir_unversioned = Some [''frames'' \<mapsto> 5]
      \<and> [''frames'' \<mapsto> 5::real] ''ds_ver'' = None"
    by (simp add: ex_dir_unversioned_def)
  then have c: "validate ex_dir_unversioned = Inr False"
    using stale_version_invalid[of ex_dir_unversioned] by blast
  have f: "find (str_in ''set1'') (scandir_datasets ex_ds_world_old) = Some ''set10''"
    using ex_find by (simp add: ex_ds_world_old_def ex_ds_world_def)
  have d: "find_dataset ex_ds_world_old ''set1'' =
       Inr \<lparr>found_path = ''data/set10'', found_name = ''set10'',
            compiled_from = Some ''data/raw/set10''\<rparr>"
    using stale_version_invalid[of ex_dir_old "''set1''" ex_ds_world_old] f b
    by (simp add: ex_ds_world_old_def ex_ds_world_def path_join_def)
  show ?thesis using ex_validate(1) a o b c d by blast
qed

text \<open>
  C10 (as amended). The constructor of \<^verbatim>\<open>Dataset\<close> tests names with \<^verbatim>\<open>name in nm\<close>: \<open>nm\<close>
  contains the query as a contiguous substring, and need not equal it. The search takes
  the first compiled directory, in scan order, whose name contains the query, and its
  outcome is that of validating this directory and, when it is invalid, of compiling it
  from the raw directory of its name: an exception raised there ends the constructor.
  When no compiled name contains the query, the first raw directory whose name does is
  compiled. When no compiled and no raw name contains the query, the constructor fails
  with "No matching dataset found", and only then does the search reach that assertion.
\<close>

theorem lookup_by_substring:
  "(\<forall>nm. str_in query nm \<longleftrightarrow> (\<exists>ps ss. nm = ps @ query @ ss))
   \<and> (\<forall>nm. find (str_in query) (scandir_datasets w) = Some nm \<longrightarrow>
         find_dataset w query =
           (case validate (dir_at w (path_join (datasets w) nm)) of
              Inl e \<Rightarrow> Inl e
            | Inr True \<Rightarrow> Inr \<lparr>found_path = path_join (datasets w) nm, found_name = nm,
                               compiled_from = None\<rparr>
            | Inr False \<Rightarrow>
                (case build_raises w (path_join (path_join (datasets w) ''raw'') nm) of
                   Some e \<Rightarrow> Inl e
                 | None \<Rightarrow> Inr \<lparr>found_path = path_join (datasets w) nm, found_name = nm,
                       compiled_from = Some (path_join (path_join (datasets w) ''raw'') nm)\<rparr>)))
   \<and> (\<forall>nm. find (str_in query) (scandir_datasets w) = None
           \<and> find (str_in query) (scandir_raw w) = Some nm \<longrightarrow>
         find_dataset w query =
           (case build_raises w (path_join (path_join (datasets w) ''raw'') nm) of
              Some e \<Rightarrow> Inl e
            | None \<Rightarrow> Inr \<lparr>found_path = path_join (datasets w) nm, found_name = nm,
                    compiled_from = Some (path_join (path_join (datasets w) ''raw'') nm)\<rparr>))
   \<and> ((\<forall>nm \<in> set (scandir_datasets w) \<union> set (scandir_raw w). \<not> str_in query nm) \<longrightarrow>
         find_dataset w query =
           Inl (AssertionError (''No matching dataset found for '' @ [CHR 0x27] @ query @ [CHR 0x27])))
   \<and> ((search_compiled w query (scandir_datasets w) = None
          \<and> search_raw w query (scandir_raw w) = None) \<longleftrightarrow>
        (\<forall>nm \<in> set (scandir_datasets w) \<union> set (scandir_raw w). \<not> str_in query nm))"
proof (intro conjI allI impI)
  show "str_in query nm \<longleftrightarrow> (\<exists>ps ss. nm = ps @ query @ ss)" for nm by (rule str_in_iff)
  show "find_dataset w query =
           (case validate (dir_at w (path_join (datasets w) nm)) of
              Inl e \<Rightarrow> Inl e
            | Inr True \<Rightarrow> Inr \<lparr>found_path = path_join (datasets w) nm, found_name = nm,
                               compiled_from = None\<rparr>
            | Inr False \<Rightarrow>
                (case build_raises w (path_join (path_join (datasets w) ''raw'') nm) of
                   Some e \<Rightarrow> Inl e
                 | None \<Rightarrow> Inr \<lparr>found_path = path_join (datasets w) nm, found_name = nm,
                       compiled_from = Some (path_join (path_join (datasets w) ''raw'') nm)\<rparr>))"
    if "find (str_in query) (scandir_datasets w) = Some nm" for nm
    using search_compiled_first[OF that, of w] by (simp add: find_dataset_def)
  show "find_dataset w query =
           (case build_raises w (path_join (path_join (datasets w) ''raw'') nm) of
              Some e \<Rightarrow> Inl e
            | None \<Rightarrow> Inr \<lparr>found_path = path_join (datasets w) nm, found_name = nm,
                    compiled_from = Some (path_join (path_join (datasets w) ''raw'') nm)\<rparr>)"
    if "find (str_in query) (scandir_datasets w) = None
           \<and> find (str_in query) (scandir_raw w) = Some nm" for nm
  proof -
    from that have "search_compiled w query (scandir_datasets w) = None"
      by (simp add: search_compiled_None find_None_str_in)
    then show ?thesis
      using that search_raw_first[of query "scandir_raw w" nm w]
      by (simp add: find_dataset_def)
  qed
  show "find_dataset w query =
           Inl (AssertionError (''No matching dataset found for '' @ [CHR 0x27] @ query @ [CHR 0x27]))"
    if "\<forall>nm \<in> set (scandir_datasets w) \<union> set (scandir_raw w). \<not> str_in query nm"
  proof -
    from that have "search_compiled w query (scandir_datasets w) = None"
      "search_raw w query (scandir_raw w) = None"
      by (simp_all add: search_compiled_None search_raw_None)
    then show ?thesis by (simp add: find_dataset_def)
  qed
  show "(search_compiled w query (scandir_datasets w) = None
          \<and> search_raw w query (scandir_raw w) = None) \<longleftrightarrow>
        (\<forall>nm \<in> set (scandir_datasets w) \<union> set (scandir_raw w). \<not> str_in query nm)"
    by (auto simp: search_compiled_None search_raw_None)
qed

theorem lookup_by_substring_witness:
  "find (str_in ''set1'') (scandir_datasets ex_ds_world) = Some ''set10''
   \<and> ''set1'' \<noteq> ''set10''
   \<and> find_dataset ex_ds_world ''set1'' =
        Inr \<lparr>found_path = ''data/set10'', found_name = ''set10'', compiled_from = None\<rparr>
   \<and> list_all (\<lambda>nm. \<not> str_in ''set3'' nm) (scandir_datasets ex_ds_world @ scandir_raw ex_ds_world)
   \<and> find_dataset ex_ds_world ''set3'' =
        Inl (AssertionError (''No matching dataset found for '' @ [CHR 0x27] @ ''set3'' @ [CHR 0x27]))"
proof -
  have f: "find (str_in ''set1'') (scandir_datasets ex_ds_world) = Some ''set10''"
    using ex_find by (simp add: ex_ds_world_def)
  have v: "validate (dir_at ex_ds_world (path_join (datasets ex_ds_world) ''set10'')) = Inr True"
    using ex_validate(1) by (simp add: ex_ds_world_def path_join_def)
  have a: "find_dataset ex_ds_world ''set1'' =
        Inr \<lparr>found_path = ''data/set10'', found_name = ''set10'', compiled_from = None\<rparr>"
    using lookup_by_substring[of "''set1''" ex_ds_world, THEN conjunct2, THEN conjunct1,
        rule_format, OF f]
    by (simp add: v) (simp add: ex_ds_world_def path_join_def)
  have n: "\<forall>nm \<in> set (scandir_datasets ex_ds_world) \<union> set (scandir_raw ex_ds_world).
      \<not> str_in ''set3'' nm"
    by (simp add: ex_ds_world_def)
  have b: "find_dataset ex_ds_world ''set3'' =
        Inl (AssertionError (''No matching dataset found for '' @ [CHR 0x27] @ ''set3'' @ [CHR 0x27]))"
    by (rule lookup_by_substring[of "''set3''" ex_ds_world, THEN conjunct2, THEN conjunct2,
          THEN conjunct2, THEN conjunct1, THEN mp, OF n])
  have l: "list_all (\<lambda>nm. \<not> str_in ''set3'' nm)
      (scandir_datasets ex_ds_world @ scandir_raw ex_ds_world)"
    using n by (simp add: list_all_iff)
  show ?thesis using f a l b by simp
qed

text \<open>
  The claim C10 as it was stated fails on a datasets directory that holds \<^verbatim>\<open>raw\<close> and
  \<^verbatim>\<open>data_a\<close>, with the query \<^verbatim>\<open>a\<close>: the name \<^verbatim>\<open>data_a\<close> contains the query and the
  directory is valid, yet the constructor fails, with the \<^verbatim>\<open>FileNotFoundError\<close> of
  validating \<^verbatim>\<open>raw\<close>, the first name that contains the query.
\<close>

theorem lookup_fails_with_match_counterexample:
  "str_in ''a'' ''data_a''
   \<and> validate (dir_at ex_ds_world_raw ''data/data_a'') = Inr True
   \<and> find_dataset ex_ds_world_raw ''a'' = Inl FileNotFoundError"
proof -
  have "validate ex_dir_raw = Inl FileNotFoundError"
    by (simp add: validate_def ex_dir_raw_def Let_def)
  then have "find_dataset ex_ds_world_raw ''a'' = Inl FileNotFoundError"
    by (simp add: find_dataset_def ex_ds_world_raw_def path_join_def Let_def)
  moreover have "validate (dir_at ex_ds_world_raw ''data/data_a'') = Inr True"
    using ex_validate(1) by (simp add: ex_ds_world_raw_def)
  ultimately show ?thesis by simp
qed

subsection \<open>Subsets\<close>

lemma build_subset_result:
  "\<exists>e. build_subset self fs src sub_type idxs clk = (fs, Inl e)"
  by (simp add: build_subset_def write_subset_def split: sum.splits)

lemma ex_build_subset:
  "build_subset ex_self ex_fs ''a.h5'' ''train'' [2, 0, 4] ex_clock = (ex_fs, Inl AttributeError)"
  by (simp add: build_subset_def write_subset_def read_full_def ex_fs_def)

text \<open>
  C2. The specification asks that \<^verbatim>\<open>build_subset\<close> writes a new container with the rows
  of the source at the given indices. The code never does: whatever the inputs,
  \<^verbatim>\<open>build_subset\<close> ends in an exception and leaves the containers of the file system as
  they were. On the five-frame container with the indices \<open>[2,0,4]\<close> the exception is the
  \<^verbatim>\<open>AttributeError\<close> of \<^verbatim>\<open>file.attrs = self.attrs\<close>, and no container with the three rows
  exists afterwards.
\<close>

theorem build_subset_never_writes:
  "fst (build_subset self fs src sub_type idxs clk) = fs
   \<and> (\<exists>e. snd (build_subset self fs src sub_type idxs clk) = Inl e)
   \<and> build_subset ex_self ex_fs ''a.h5'' ''train'' [2, 0, 4] ex_clock = (ex_fs, Inl AttributeError)
   \<and> \<not> (\<exists>c. fst (build_subset ex_self ex_fs ''a.h5'' ''train'' [2, 0, 4] ex_clock) ''a_train.h5'' = Some c
           \<and> subset_rows ex_container [2, 0, 4] c)"
proof -
  have "ex_fs ''a_train.h5'' = None" by (simp add: ex_fs_def)
  then show ?thesis
    using build_subset_result[of self fs src sub_type idxs clk] ex_build_subset
    by auto
qed

subsection \<open>The stages of the full build\<close>

lemma length_assign_loop: "length (assign_loop ips f arr) = length arr"
  by (induction ips f arr rule: assign_loop.induct) simp_all

lemma assign_loop_nth:
  "distinct (map fst ips) \<Longrightarrow> i < length arr \<Longrightarrow>
   assign_loop ips f arr ! i = (case map_of ips i of Some p \<Rightarrow> f p | None \<Rightarrow> arr ! i)"
proof (induction ips f arr rule: assign_loop.induct)
  case (1 f arr)
  then show ?case by simp
next
  case (2 idx path rest f arr)
  have d: "distinct (map fst rest)" "idx \<notin> fst ` set rest" using 2(2) by auto
  have IH: "assign_loop rest f (arr[idx := f path]) ! i =
      (case map_of rest i of Some p \<Rightarrow> f p | None \<Rightarrow> arr[idx := f path] ! i)"
    using 2(1)[OF d(1)] 2(3) by simp
  show ?case
  proof (cases "i = idx")
    case True
    have "map_of rest idx = None" using d(2) by (simp add: map_of_eq_None_iff)
    then show ?thesis using IH 2(3) True by simp
  next
    case False
    then show ?thesis using IH by (simp split: option.splits)
  qed
qed

lemma assign_loop_zip:
  assumes "length ps = n" and "length arr = n"
  shows "assign_loop (zip [0..<n] ps) f arr = map f ps"
proof (rule nth_equalityI)
  show "length (assign_loop (zip [0..<n] ps) f arr) = length (map f ps)"
    using assms by (simp add: length_assign_loop)
next
  fix i assume "i < length (assign_loop (zip [0..<n] ps) f arr)"
  then have i: "i < n" using assms by (simp add: length_assign_loop)
  have "map_of (zip [0..<n] ps) ([0..<n] ! i) = Some (ps ! i)"
    using assms i by (intro map_of_zip_nth) simp_all
  then have "map_of (zip [0..<n] ps) i = Some (ps ! i)" using i by simp
  moreover have "distinct (map fst (zip [0..<n] ps))" using assms by simp
  ultimately show "assign_loop (zip [0..<n] ps) f arr ! i = map f ps ! i"
    using assign_loop_nth[of "zip [0..<n] ps" i arr f] i assms by simp
qed

lemma concat_map_if:
  "concat (map (\<lambda>x. if P x then [f x] else []) ys) = map f (filter P ys)"
  by (induction ys) simp_all

lemma files_with_ext_walk_files:
  "files_with_ext wk ext =
     map (\<lambda>(r, x). path_join r x) (filter (\<lambda>(r, x). endswith x ext) (walk_files wk))"
  unfolding files_with_ext_def walk_files_def
  by (induction wk) (simp_all add: split_beta concat_map_if filter_map comp_def)

lemma length_files_with_ext: "length (files_with_ext wk ext) = count_ext wk ext"
  by (simp add: files_with_ext_walk_files count_ext_def)


lemma get_filepaths_eq:
  "get_filepaths_from_data_dir w self dp =
     (if count_ext (walk w dp) ''.json'' = count_ext (walk w dp) ''.npy''
         \<and> count_ext (walk w dp) ''.npy'' = count_ext (walk w dp) ''.png''
      then Inr (self\<lparr>jsons_p := files_with_ext (walk w dp) ''.json'',
                     maps_p := files_with_ext (walk w dp) ''.npy'',
                     imgs_p := files_with_ext (walk w dp) ''.png'',
                     jsons := map (\<lambda>x. str_replace x dp []) (files_with_ext (walk w dp) ''.json''),
                     maps := map (\<lambda>x. str_replace x dp []) (files_with_ext (walk w dp) ''.npy''),
                     imgs := map (\<lambda>x. str_replace x dp []) (files_with_ext (walk w dp) ''.png''),
                     self_length := count_ext (walk w dp) ''.png''\<rparr>)
      else Inl (AssertionError ''Unequal number of images, jsons, or maps''))"
  by (simp add: get_filepaths_from_data_dir_def Let_def length_files_with_ext)


lemma parse_jsons_ok:
  "\<forall>p\<in>set (map snd ips). 6 \<le> length (joints (json_load w p)) \<Longrightarrow>
   \<exists>ang' pos'. parse_jsons w ips (ang, pos, ds, idp, icl) =
     Inr (ang', pos',
          fold (\<lambda>p. List.insert (rs_depth_scale (json_load w p))) (map snd ips) ds,
          fold (\<lambda>p. List.insert (rs_intrin_depth (json_load w p))) (map snd ips) idp,
          fold (\<lambda>p. List.insert (rs_intrin_color (json_load w p))) (map snd ips) icl)"
proof (induction ips arbitrary: ang pos ds idp icl)
  case Nil
  then show ?case by simp
next
  case (Cons ip ips)
  obtain idx path where ip: "ip = (idx, path)" by (cases ip)
  from Cons.prems have six: "\<not> length (joints (json_load w path)) < 6"
    and rest: "\<forall>p\<in>set (map snd ips). 6 \<le> length (joints (json_load w p))"
    by (auto simp: ip)
  show ?case
    using Cons.IH[OF rest] six by (simp add: ip Let_def)
qed

lemma set_fold_insert:
  "set (fold (\<lambda>p. List.insert (g p)) ps ys) = g ` set ps \<union> set ys"
  by (induction ps arbitrary: ys) auto

lemma distinct_fold_insert:
  "distinct ys \<Longrightarrow> distinct (fold (\<lambda>p. List.insert (g p)) ps ys)"
  by (induction ps arbitrary: ys) auto

lemma length_fold_insert:
  "length (fold (\<lambda>p. List.insert (g p)) ps []) = card (g ` set ps)"
  using distinct_card[OF distinct_fold_insert[of "[]" g ps]] by (simp add: set_fold_insert)

lemma singleton_hd:
  assumes "length xs = 1" shows "set xs = {hd xs}"
proof -
  from assms obtain x where "xs = [x]" by (cases xs) auto
  then show ?thesis by simp
qed

lemma snd_zip_upt: "length ps = n \<Longrightarrow> map snd (zip [0..<n] ps) = ps"
  by (simp add: map_snd_zip)

text \<open>The three sets that \<^verbatim>\<open>_load_json_data\<close> collects, and its outcome on well-formed
  JSON files.\<close>

lemma load_json_data_eq:
  assumes "length (jsons_p s) = self_length s"
    and "\<forall>p\<in>set (jsons_p s). 6 \<le> length (joints (json_load w p))"
  shows "\<exists>ang pos. load_json_data w s =
     (if \<not> (length (fold (\<lambda>p. List.insert (rs_depth_scale (json_load w p))) (jsons_p s) [])
               = length (fold (\<lambda>p. List.insert (rs_intrin_depth (json_load w p))) (jsons_p s) [])
             \<and> length (fold (\<lambda>p. List.insert (rs_intrin_depth (json_load w p))) (jsons_p s) [])
               = length (fold (\<lambda>p. List.insert (rs_intrin_color (json_load w p))) (jsons_p s) [])
             \<and> length (fold (\<lambda>p. List.insert (rs_intrin_color (json_load w p))) (jsons_p s) []) = 1)
      then Inl (AssertionError ''Camera settings must be uniform over the dataset.'')
      else Inr (s\<lparr>ang_arr := ang, pos_arr := pos,
             depth_scale := hd (fold (\<lambda>p. List.insert (rs_depth_scale (json_load w p))) (jsons_p s) []),
             intrin_depth := hd (fold (\<lambda>p. List.insert (rs_intrin_depth (json_load w p))) (jsons_p s) []),
             intrin_color := hd (fold (\<lambda>p. List.insert (rs_intrin_color (json_load w p))) (jsons_p s) [])\<rparr>))"
proof -
  let ?n = "self_length s"
  let ?ips = "zip [0..<?n] (jsons_p s)"
  have sn: "map snd ?ips = jsons_p s" using assms(1) by (rule snd_zip_upt)
  from parse_jsons_ok[of ?ips w "replicate ?n (replicate 6 0)"
      "replicate ?n (replicate 6 (0, 0, 0))" "[]" "[]" "[]"] assms(2)
  obtain ang pos where
    pj: "parse_jsons w ?ips (replicate ?n (replicate 6 0), replicate ?n (replicate 6 (0, 0, 0)),
           [], [], []) =
         Inr (ang, pos,
           fold (\<lambda>p. List.insert (rs_depth_scale (json_load w p))) (jsons_p s) [],
           fold (\<lambda>p. List.insert (rs_intrin_depth (json_load w p))) (jsons_p s) [],
           fold (\<lambda>p. List.insert (rs_intrin_color (json_load w p))) (jsons_p s) [])"
    unfolding sn by blast
  show ?thesis
    by (rule exI[of _ ang], rule exI[of _ pos]) (simp add: load_json_data_def Let_def pj)
qed

lemma length_one_card:
  "length (fold (\<lambda>p. List.insert (g p)) ps []) = 1 \<longleftrightarrow> card (g ` set ps) = 1"
  by (simp add: length_fold_insert)

lemma hd_fold_insert_singleton:
  assumes "card (g ` set ps) = 1"
  shows "g ` set ps = {hd (fold (\<lambda>p. List.insert (g p)) ps [])}"
proof -
  have "length (fold (\<lambda>p. List.insert (g p)) ps []) = 1"
    using assms by (simp add: length_fold_insert)
  from singleton_hd[OF this] show ?thesis by (simp add: set_fold_insert)
qed


lemma load_json_data_reads:
  "self_length t = self_length s \<Longrightarrow> jsons_p t = jsons_p s \<Longrightarrow> load_json_data w s = Inr s' \<Longrightarrow>
   load_json_data w t = Inr (t\<lparr>ang_arr := ang_arr s', pos_arr := pos_arr s',
        depth_scale := depth_scale s', intrin_depth := intrin_depth s',
        intrin_color := intrin_color s'\<rparr>)"
  by (auto simp: load_json_data_def Let_def split: sum.splits if_splits)


lemma load_imgs_Inr:
  "load_imgs_and_depthmaps w s = Inr s' \<Longrightarrow>
   s' = s\<lparr>img_height := img_height s', img_width := img_width s',
          orig_img_arr := orig_img_arr s', depthmap_arr := depthmap_arr s'\<rparr>
   \<and> length (orig_img_arr s') = self_length s \<and> length (depthmap_arr s') = self_length s"
  by (auto simp: load_imgs_and_depthmaps_def Let_def length_assign_loop split: list.splits)

lemma load_imgs_rows:
  "load_imgs_and_depthmaps w s = Inr s' \<Longrightarrow> length (imgs_p s) = self_length s \<Longrightarrow>
   length (maps_p s) = self_length s \<Longrightarrow>
   orig_img_arr s' = map (imread w) (imgs_p s)
   \<and> depthmap_arr s' = map (\<lambda>p. scale w (depth_scale s) (np_load w p)) (maps_p s)"
  by (auto simp: load_imgs_and_depthmaps_def Let_def assign_loop_zip split: list.splits)

lemma load_imgs_reads:
  "self_length t = self_length s \<Longrightarrow> imgs_p t = imgs_p s \<Longrightarrow> maps_p t = maps_p s \<Longrightarrow>
   depth_scale t = depth_scale s \<Longrightarrow> load_imgs_and_depthmaps w s = Inr s' \<Longrightarrow>
   load_imgs_and_depthmaps w t = Inr (t\<lparr>img_height := img_height s', img_width := img_width s',
          orig_img_arr := orig_img_arr s', depthmap_arr := depthmap_arr s'\<rparr>)"
  by (auto simp: load_imgs_and_depthmaps_def Let_def split: list.splits)


lemma crop_batches_length:
  "crop_batches w n self starts (b, seg, pm) = Inr (b', seg', pm') \<Longrightarrow>
   length seg' = length seg \<and> length pm' = length pm"
proof (induction starts arbitrary: b seg pm)
  case Nil
  then show ?case by simp
next
  case (Cons start starts)
  define b1 where "b1 = (if start + b \<ge> self_length self then self_length self - start else b)"
  define outs where "outs = map (\<lambda>(d, i, m, r). crop w d i m r)
      (map (\<lambda>idx. (depthmap_arr self ! idx, orig_img_arr self ! idx, mask_arr self ! idx,
                     rois self ! idx)) [start..<start + b1])"
  define wb where "wb = write_back [start..<start + b1] start outs (seg, pm)"
  from Cons.prems have "crop_batches w n self starts (b1, fst wb, snd wb) = Inr (b', seg', pm')"
    by (simp add: Let_def pool_starmap_def b1_def outs_def wb_def split_beta split: if_splits)
  from Cons.IH[OF this] show ?case
    using write_back_length[of "[start..<start + b1]" start outs seg pm]
    by (simp add: wb_def)
qed

lemma crop_batches_reads:
  "self_length a = self_length b \<Longrightarrow> depthmap_arr a = depthmap_arr b \<Longrightarrow>
   orig_img_arr a = orig_img_arr b \<Longrightarrow> mask_arr a = mask_arr b \<Longrightarrow> rois a = rois b \<Longrightarrow>
   crop_batches w n a starts st = crop_batches w n b starts st"
proof (induction starts arbitrary: st)
  case Nil
  then show ?case by simp
next
  case (Cons start starts)
  obtain bs seg pm where st: "st = (bs, seg, pm)" by (cases st)
  show ?case
    unfolding st using Cons.prems Cons.IH[OF Cons.prems]
    by (simp add: Let_def split: sum.splits)
qed

lemma crop_data_Inr:
  "crop_data w bs n s = Inr s' \<Longrightarrow>
   s' = s\<lparr>segmented_img_arr := segmented_img_arr s', pointmap := pointmap s'\<rparr>
   \<and> length (segmented_img_arr s') = length (segmented_img_arr s)
   \<and> length (pointmap s') = length (pointmap s)"
  by (auto simp: crop_data_def split: if_splits sum.splits dest: crop_batches_length)

lemma crop_data_reads:
  assumes "self_length a = self_length b" "depthmap_arr a = depthmap_arr b"
    "orig_img_arr a = orig_img_arr b" "mask_arr a = mask_arr b" "rois a = rois b"
    "segmented_img_arr a = segmented_img_arr b" "pointmap a = pointmap b"
    and "crop_data w bs n a = Inr a'"
  shows "crop_data w bs n b =
           Inr (b\<lparr>segmented_img_arr := segmented_img_arr a', pointmap := pointmap a'\<rparr>)"
  using assms(8) unfolding crop_data_def crop_batches_reads[OF assms(1-5)] assms(1,6,7)
  by (auto split: if_splits sum.splits)

lemma segment_loop_reads:
  "orig_img_arr a = orig_img_arr b \<Longrightarrow>
   segment_loop w a idxs st = segment_loop w b idxs st"
proof (induction idxs arbitrary: st)
  case Nil
  then show ?case by (cases st) simp
next
  case (Cons idx idxs)
  then show ?case by (cases st) (simp split: prod.splits)
qed

lemma segment_Inr:
  "segment_images_and_maps w s = Inr s' \<Longrightarrow>
   s' = s\<lparr>segmented_img_arr := segmented_img_arr s', pointmap := pointmap s',
          mask_arr := mask_arr s', rois := rois s'\<rparr>
   \<and> length (segmented_img_arr s') = self_length s \<and> length (pointmap s') = self_length s
   \<and> length (rois s') = self_length s"
proof -
  assume a: "segment_images_and_maps w s = Inr s'"
  let ?n = "self_length s"
  obtain masks rs where sl: "segment_loop w s [0..<?n]
       (replicate ?n (zeros w [img_height s, img_width s]), replicate ?n (replicate 4 0)) = (masks, rs)"
    by (cases "segment_loop w s [0..<?n]
       (replicate ?n (zeros w [img_height s, img_width s]), replicate ?n (replicate 4 0))")
  have lr: "length rs = ?n"
    using segment_loop_length[of w s "[0..<?n]"
        "replicate ?n (zeros w [img_height s, img_width s])" "replicate ?n (replicate 4 0)"] sl
    by simp
  let ?pre = "s\<lparr>segmented_img_arr := replicate ?n (zeros w [seg_height w, seg_width w, 3]),
                pointmap := replicate ?n (zeros w [seg_height w, seg_width w, 3]),
                mask_arr := masks, rois := astype_int rs\<rparr>"
  from a sl have "crop_data w 100 (workerCount w) ?pre = Inr s'"
    by (simp add: segment_images_and_maps_def Let_def)
  from crop_data_Inr[OF this] have
    e: "s' = ?pre\<lparr>segmented_img_arr := segmented_img_arr s', pointmap := pointmap s'\<rparr>"
    and l: "length (segmented_img_arr s') = ?n" "length (pointmap s') = ?n"
    by simp_all
  have m: "mask_arr s' = masks" using arg_cong[OF e, of mask_arr] by simp
  have r: "rois s' = astype_int rs" using arg_cong[OF e, of rois] by simp
  have eq2: "?pre\<lparr>segmented_img_arr := segmented_img_arr s', pointmap := pointmap s'\<rparr> =
      s\<lparr>segmented_img_arr := segmented_img_arr s', pointmap := pointmap s',
        mask_arr := masks, rois := astype_int rs\<rparr>" by simp
  have "s' = s\<lparr>segmented_img_arr := segmented_img_arr s', pointmap := pointmap s',
        mask_arr := masks, rois := astype_int rs\<rparr>" by (rule trans[OF e eq2])
  then have "s' = s\<lparr>segmented_img_arr := segmented_img_arr s', pointmap := pointmap s',
          mask_arr := mask_arr s', rois := rois s'\<rparr>" by (simp only: m r)
  moreover have "length (rois s') = ?n" using lr by (simp add: r astype_int_def)
  ultimately show ?thesis using l by blast
qed

lemma segment_reads:
  assumes "self_length t = self_length s" "orig_img_arr t = orig_img_arr s"
    "depthmap_arr t = depthmap_arr s" "img_height t = img_height s" "img_width t = img_width s"
    and "segment_images_and_maps w s = Inr s'"
  shows "segment_images_and_maps w t =
           Inr (t\<lparr>segmented_img_arr := segmented_img_arr s', pointmap := pointmap s',
                   mask_arr := mask_arr s', rois := rois s'\<rparr>)"
proof -
  let ?n = "self_length s"
  let ?init = "(replicate ?n (zeros w [img_height s, img_width s]), replicate ?n (replicate 4 0))"
  obtain masks rs where sl: "segment_loop w s [0..<?n] ?init = (masks, rs)"
    by (cases "segment_loop w s [0..<?n] ?init")
  then have slt: "segment_loop w t [0..<?n] ?init = (masks, rs)"
    using segment_loop_reads[OF assms(2), of w "[0..<?n]" ?init] by simp
  let ?z = "replicate ?n (zeros w [seg_height w, seg_width w, 3])"
  let ?pre = "\<lambda>u. u\<lparr>segmented_img_arr := ?z, pointmap := ?z, mask_arr := masks,
                       rois := astype_int rs\<rparr>"
  have cs: "crop_data w 100 (workerCount w) (?pre s) = Inr s'"
    using assms(6) sl by (simp add: segment_images_and_maps_def Let_def)
  from crop_data_Inr[OF cs] have
    e: "s' = (?pre s)\<lparr>segmented_img_arr := segmented_img_arr s', pointmap := pointmap s'\<rparr>"
    by simp
  have ms: "mask_arr s' = masks" "rois s' = astype_int rs"
    using arg_cong[OF e, of mask_arr] arg_cong[OF e, of rois] by simp_all
  have "crop_data w 100 (workerCount w) (?pre t) =
      Inr ((?pre t)\<lparr>segmented_img_arr := segmented_img_arr s', pointmap := pointmap s'\<rparr>)"
    by (rule crop_data_reads[OF _ _ _ _ _ _ _ cs]) (simp_all add: assms)
  then show ?thesis
    using slt assms(1,4,5) ms by (simp add: segment_images_and_maps_def Let_def)
qed

lemma build_full_Inr:
  "build_full w self fs dp ver nm clk = (fs', Inr dest) \<Longrightarrow>
   \<exists>s1 s2 s3 s4.
      get_filepaths_from_data_dir w (set_dest_path w self dp nm) dp = Inr s1
    \<and> load_json_data w s1 = Inr s2 \<and> load_imgs_and_depthmaps w s2 = Inr s3
    \<and> segment_images_and_maps w s3 = Inr s4 \<and> save_full w s4 fs ver clk = (fs', Inr dest)"
  by (auto simp: build_full_def split: sum.splits)

lemma save_full_Inr:
  "save_full w s fs ver clk = (fs', Inr dest) \<Longrightarrow>
   dest = path_join (dest_path s) (name s @ ''.h5'') \<and> fs dest = None
   \<and> orig_img_arr s \<noteq> [] \<and> segmented_img_arr s \<noteq> []
   \<and> fs' = fs(dest \<mapsto>
         \<lparr>attrs = full_attrs w s ver clk (hd (orig_img_arr s)) (hd (segmented_img_arr s)),
          angles = ang_arr s, positions = pos_arr s,
          coordinates_depthmaps = depthmap_arr s, depthmaps_depth_scale = depth_scale s,
          coordinates_pointmaps = pointmap s, images_original = orig_img_arr s,
          images_segmented = segmented_img_arr s, images_rois = rois s,
          paths_jsons = jsons s, paths_depthmaps = maps s, paths_images = imgs s\<rparr>)"
  by (auto simp: save_full_def Let_def split: option.splits list.splits prod.splits)


lemma get_filepaths_keeps:
  "get_filepaths_from_data_dir w s dp = Inr s' \<Longrightarrow>
   dest_path s' = dest_path s \<and> name s' = name s \<and> build_start_time s' = build_start_time s
   \<and> length (jsons_p s') = self_length s' \<and> length (maps_p s') = self_length s'
   \<and> length (imgs_p s') = self_length s' \<and> length (jsons s') = self_length s'
   \<and> length (maps s') = self_length s' \<and> length (imgs s') = self_length s'"
  by (auto simp: get_filepaths_eq length_files_with_ext split: if_splits)

lemma load_json_data_keeps:
  "load_json_data w s = Inr s' \<Longrightarrow>
   dest_path s' = dest_path s \<and> name s' = name s \<and> build_start_time s' = build_start_time s
   \<and> self_length s' = self_length s \<and> jsons_p s' = jsons_p s \<and> maps_p s' = maps_p s
   \<and> imgs_p s' = imgs_p s \<and> jsons s' = jsons s \<and> maps s' = maps s \<and> imgs s' = imgs s"
  by (auto simp: load_json_data_def Let_def split: sum.splits if_splits)

lemma load_imgs_keeps:
  "load_imgs_and_depthmaps w s = Inr s' \<Longrightarrow>
   dest_path s' = dest_path s \<and> name s' = name s \<and> build_start_time s' = build_start_time s
   \<and> self_length s' = self_length s \<and> jsons s' = jsons s \<and> maps s' = maps s \<and> imgs s' = imgs s
   \<and> ang_arr s' = ang_arr s \<and> pos_arr s' = pos_arr s \<and> depth_scale s' = depth_scale s
   \<and> intrin_depth s' = intrin_depth s \<and> intrin_color s' = intrin_color s"
  by (auto simp: load_imgs_and_depthmaps_def Let_def split: list.splits)

lemma segment_keeps:
  assumes "segment_images_and_maps w s = Inr s'"
  shows "dest_path s' = dest_path s \<and> name s' = name s \<and> build_start_time s' = build_start_time s
   \<and> self_length s' = self_length s \<and> jsons s' = jsons s \<and> maps s' = maps s \<and> imgs s' = imgs s
   \<and> ang_arr s' = ang_arr s \<and> pos_arr s' = pos_arr s \<and> depth_scale s' = depth_scale s
   \<and> intrin_depth s' = intrin_depth s \<and> intrin_color s' = intrin_color s
   \<and> orig_img_arr s' = orig_img_arr s \<and> depthmap_arr s' = depthmap_arr s"
proof -
  from segment_Inr[OF assms] have
    e: "s' = s\<lparr>segmented_img_arr := segmented_img_arr s', pointmap := pointmap s',
          mask_arr := mask_arr s', rois := rois s'\<rparr>" by blast
  show ?thesis by (subst e, simp)+
qed



text \<open>The scanner on the small capture.\<close>

lemma ex_counts:
  "count_ext (walk ex_world dp) ''.json'' = 2" "count_ext (walk ex_world dp) ''.npy'' = 2"
  "count_ext (walk ex_world dp) ''.png'' = 2"
  "count_ext (walk ex_world_missing dp) ''.json'' = 2"
  "count_ext (walk ex_world_missing dp) ''.npy'' = 1"
  "count_ext (walk ex_world_missing dp) ''.png'' = 1"
  by (simp_all add: count_ext_def walk_files_def ex_world_def ex_world_missing_def endswith_def)

lemma ex_files:
  "files_with_ext (walk ex_world dp) ''.json'' = [''raw/set1/0.json'', ''raw/set1/1.json'']"
  "files_with_ext (walk ex_world dp) ''.npy'' = [''raw/set1/0.npy'', ''raw/set1/1.npy'']"
  "files_with_ext (walk ex_world dp) ''.png'' = [''raw/set1/0.png'', ''raw/set1/1.png'']"
  by (simp_all add: files_with_ext_def ex_world_def endswith_def path_join_def)

lemma ex_walk_mixed: "walk ex_world_mixed = walk ex_world"
  by (simp add: ex_world_mixed_def)

lemma ex_scan:
  assumes "walk w = walk ex_world"
  shows "\<exists>s1. get_filepaths_from_data_dir w self ''raw/set1'' = Inr s1
     \<and> jsons_p s1 = [''raw/set1/0.json'', ''raw/set1/1.json'']
     \<and> maps_p s1 = [''raw/set1/0.npy'', ''raw/set1/1.npy'']
     \<and> imgs_p s1 = [''raw/set1/0.png'', ''raw/set1/1.png'']
     \<and> self_length s1 = 2"
  by (simp add: get_filepaths_eq assms ex_counts ex_files)


text \<open>A build that succeeds, and the invariant of what it writes.\<close>

lemma segment_succeeds:
  assumes "1 \<le> workerCount w"
  shows "\<exists>s'. segment_images_and_maps w s = Inr s'"
proof -
  let ?n = "self_length s"
  obtain masks rs where sl: "segment_loop w s [0..<?n]
       (replicate ?n (zeros w [img_height s, img_width s]), replicate ?n (replicate 4 0)) = (masks, rs)"
    by (cases "segment_loop w s [0..<?n]
       (replicate ?n (zeros w [img_height s, img_width s]), replicate ?n (replicate 4 0))")
  let ?pre = "s\<lparr>segmented_img_arr := replicate ?n (zeros w [seg_height w, seg_width w, 3]),
                pointmap := replicate ?n (zeros w [seg_height w, seg_width w, 3]),
                mask_arr := masks, rois := astype_int rs\<rparr>"
  have "segment_images_and_maps w s = crop_data w 100 (workerCount w) ?pre"
    using sl by (simp add: segment_images_and_maps_def Let_def)
  moreover have "\<exists>s'. crop_data w 100 (workerCount w) ?pre = Inr s'"
    using crop_data_sequential[of 100 "workerCount w" ?pre w] assms by simp
  ultimately show ?thesis by simp
qed



lemma take_two: "2 \<le> length xs \<Longrightarrow> \<exists>h wd. take 2 xs = [h, wd]"
  by (cases xs; cases "tl xs") (auto simp: numeral_2_eq_2)

lemma save_full_new:
  assumes "fs (path_join (dest_path s) (name s @ ''.h5'')) = None"
    and "orig_img_arr s \<noteq> []" and "segmented_img_arr s \<noteq> []"
  shows "\<exists>fs'. save_full w s fs ver clk = (fs', Inr (path_join (dest_path s) (name s @ ''.h5'')))"
  using assms by (cases "orig_img_arr s"; cases "segmented_img_arr s") (simp_all add: save_full_def Let_def)

lemma build_full_succeeds:
  assumes scan: "get_filepaths_from_data_dir w (set_dest_path w self dp nm) dp = Inr s1"
    and wf: "\<forall>p\<in>set (jsons_p s1). 6 \<le> length (joints (json_load w p))"
    and uni: "card (rs_depth_scale ` json_load w ` set (jsons_p s1)) = 1"
      "card (rs_intrin_depth ` json_load w ` set (jsons_p s1)) = 1"
      "card (rs_intrin_color ` json_load w ` set (jsons_p s1)) = 1"
    and shp: "2 \<le> length (shape w (imread w (hd (imgs_p s1))))"
    and wc: "1 \<le> workerCount w"
    and fresh: "fs (path_join (dest_path s1) (name s1 @ ''.h5'')) = None"
  shows "\<exists>fs'. build_full w self fs dp ver nm clk =
           (fs', Inr (path_join (dest_path s1) (name s1 @ ''.h5'')))"
proof -
  note k1 = get_filepaths_keeps[OF scan]
  have len: "length (jsons_p s1) = self_length s1" using k1 by blast
  have lens: "length (fold (\<lambda>p. List.insert (rs_depth_scale (json_load w p))) (jsons_p s1) []) = 1"
    "length (fold (\<lambda>p. List.insert (rs_intrin_depth (json_load w p))) (jsons_p s1) []) = 1"
    "length (fold (\<lambda>p. List.insert (rs_intrin_color (json_load w p))) (jsons_p s1) []) = 1"
    using uni by (simp_all add: length_fold_insert image_image)
  from load_json_data_eq[OF len wf] obtain s2 where r2: "load_json_data w s1 = Inr s2"
    unfolding lens by auto
  note k2 = load_json_data_keeps[OF r2]
  have "set (jsons_p s1) \<noteq> {}" using uni(1) by auto
  then have pos: "0 < self_length s1" using len by (cases "jsons_p s1") auto
  have "length (imgs_p s2) = self_length s1" using k1 k2 by simp
  with pos have "imgs_p s2 \<noteq> []" by auto
  then obtain p0 ps where ip: "imgs_p s2 = p0 # ps"
    by (cases "imgs_p s2") auto
  have "hd (imgs_p s1) = p0" using ip k2 by simp
  with take_two[OF shp] obtain h wd where tk: "take 2 (shape w (imread w p0)) = [h, wd]"
    by auto
  obtain s3 where r3: "load_imgs_and_depthmaps w s2 = Inr s3"
    by (simp add: load_imgs_and_depthmaps_def ip tk Let_def)
  note k3 = load_imgs_keeps[OF r3] and i3 = load_imgs_Inr[OF r3]
  from segment_succeeds[OF wc, of s3] obtain s4 where r4: "segment_images_and_maps w s3 = Inr s4"
    by blast
  note k4 = segment_keeps[OF r4] and i4 = segment_Inr[OF r4]
  have ne: "orig_img_arr s4 \<noteq> []" "segmented_img_arr s4 \<noteq> []"
    using pos k2 k3 k4 i3 i4 by auto
  have d: "dest_path s4 = dest_path s1" "name s4 = name s1"
    using k2 k3 k4 by simp_all
  from save_full_new[OF _ ne, of fs w ver clk] fresh
  obtain fs' where "save_full w s4 fs ver clk = (fs', Inr (path_join (dest_path s1) (name s1 @ ''.h5'')))"
    unfolding d by blast
  then show ?thesis by (simp add: build_full_def scan r2 r3 r4)
qed

lemma ex_build:
  "\<exists>fs'. build_full ex_world ex_self Map.empty ''raw/set1'' 1 None ex_clock =
     (fs', Inr ''data/set1/set1.h5'')"
proof -
  let ?self = "set_dest_path ex_world ex_self ''raw/set1'' None"
  from ex_scan[OF refl, of ?self] obtain s1 where
    s: "get_filepaths_from_data_dir ex_world ?self ''raw/set1'' = Inr s1"
       "jsons_p s1 = [''raw/set1/0.json'', ''raw/set1/1.json'']"
       "imgs_p s1 = [''raw/set1/0.png'', ''raw/set1/1.png'']"
    by (elim exE conjE)
  note k = get_filepaths_keeps[OF s(1)]
  have d: "path_join (dest_path s1) (name s1 @ ''.h5'') = ''data/set1/set1.h5''"
    using k by (simp add: set_dest_path_def Let_def ex_world_def path_join_def)
  have "\<exists>fs'. build_full ex_world ex_self Map.empty ''raw/set1'' 1 None ex_clock =
           (fs', Inr (path_join (dest_path s1) (name s1 @ ''.h5'')))"
    by (rule build_full_succeeds[OF s(1)])
       (simp_all add: s(2,3) ex_world_def ex_frame_def)
  then show ?thesis unfolding d .
qed


subsection \<open>The scanner\<close>

text \<open>
  C9 (as amended). \<^verbatim>\<open>_get_filepaths_from_data_dir\<close> fails with the assertion "Unequal
  number of images, jsons, or maps" unless the numbers of \<^verbatim>\<open>.json\<close>, \<^verbatim>\<open>.npy\<close> and \<^verbatim>\<open>.png\<close>
  files of the walk are equal, and the build then ends with that error and an unchanged
  file system. When they are equal, the recorded length is the common count, and each of
  the three path lists is the list of the files with its extension in the order in which
  the walk yields them: the lists are not sorted and nothing is matched by name, and
  frame \<open>k\<close> is loaded from the \<open>k\<close>-th image path and the \<open>k\<close>-th depth-map path.
\<close>

theorem scanner_counts:
  "(\<not> (count_ext (walk w dp) ''.json'' = count_ext (walk w dp) ''.npy''
        \<and> count_ext (walk w dp) ''.npy'' = count_ext (walk w dp) ''.png'')
     \<longrightarrow> get_filepaths_from_data_dir w self dp =
           Inl (AssertionError ''Unequal number of images, jsons, or maps'')
       \<and> build_full w self fs dp ver nm clk =
           (fs, Inl (AssertionError ''Unequal number of images, jsons, or maps'')))
   \<and> (count_ext (walk w dp) ''.json'' = count_ext (walk w dp) ''.npy''
        \<and> count_ext (walk w dp) ''.npy'' = count_ext (walk w dp) ''.png''
     \<longrightarrow> (\<exists>s. get_filepaths_from_data_dir w self dp = Inr s
           \<and> self_length s = count_ext (walk w dp) ''.png''
           \<and> length (jsons_p s) = self_length s \<and> length (maps_p s) = self_length s
           \<and> length (imgs_p s) = self_length s
           \<and> jsons_p s = map (\<lambda>(r, x). path_join r x)
                            (filter (\<lambda>(r, x). endswith x ''.json'') (walk_files (walk w dp)))
           \<and> maps_p s = map (\<lambda>(r, x). path_join r x)
                           (filter (\<lambda>(r, x). endswith x ''.npy'') (walk_files (walk w dp)))
           \<and> imgs_p s = map (\<lambda>(r, x). path_join r x)
                           (filter (\<lambda>(r, x). endswith x ''.png'') (walk_files (walk w dp)))
           \<and> jsons s = map (\<lambda>x. str_replace x dp []) (jsons_p s)
           \<and> maps s = map (\<lambda>x. str_replace x dp []) (maps_p s)
           \<and> imgs s = map (\<lambda>x. str_replace x dp []) (imgs_p s)
           \<and> (\<forall>s'. load_imgs_and_depthmaps w s = Inr s' \<longrightarrow>
                  orig_img_arr s' = map (imread w) (imgs_p s)
                \<and> depthmap_arr s' = map (\<lambda>p. scale w (depth_scale s) (np_load w p)) (maps_p s))))"
proof (intro conjI impI)
  assume ne: "\<not> (count_ext (walk w dp) ''.json'' = count_ext (walk w dp) ''.npy''
        \<and> count_ext (walk w dp) ''.npy'' = count_ext (walk w dp) ''.png'')"
  then show "get_filepaths_from_data_dir w self dp =
           Inl (AssertionError ''Unequal number of images, jsons, or maps'')"
    by (simp add: get_filepaths_eq)
  from ne have "get_filepaths_from_data_dir w (set_dest_path w self dp nm) dp =
           Inl (AssertionError ''Unequal number of images, jsons, or maps'')"
    by (simp add: get_filepaths_eq)
  then show "build_full w self fs dp ver nm clk =
           (fs, Inl (AssertionError ''Unequal number of images, jsons, or maps''))"
    by (simp add: build_full_def)
next
  assume eq: "count_ext (walk w dp) ''.json'' = count_ext (walk w dp) ''.npy''
        \<and> count_ext (walk w dp) ''.npy'' = count_ext (walk w dp) ''.png''"
  let ?s = "self\<lparr>jsons_p := files_with_ext (walk w dp) ''.json'',
                     maps_p := files_with_ext (walk w dp) ''.npy'',
                     imgs_p := files_with_ext (walk w dp) ''.png'',
                     jsons := map (\<lambda>x. str_replace x dp []) (files_with_ext (walk w dp) ''.json''),
                     maps := map (\<lambda>x. str_replace x dp []) (files_with_ext (walk w dp) ''.npy''),
                     imgs := map (\<lambda>x. str_replace x dp []) (files_with_ext (walk w dp) ''.png''),
                     self_length := count_ext (walk w dp) ''.png''\<rparr>"
  have r: "get_filepaths_from_data_dir w self dp = Inr ?s"
    using eq by (simp add: get_filepaths_eq)
  have l: "length (imgs_p ?s) = self_length ?s" "length (maps_p ?s) = self_length ?s"
    "length (jsons_p ?s) = self_length ?s"
    using eq by (simp_all add: length_files_with_ext)
  have rows: "orig_img_arr s' = map (imread w) (imgs_p ?s)
                \<and> depthmap_arr s' = map (\<lambda>p. scale w (depth_scale ?s) (np_load w p)) (maps_p ?s)"
    if "load_imgs_and_depthmaps w ?s = Inr s'" for s'
    using load_imgs_rows[OF that l(1,2)] .
  show "\<exists>s. get_filepaths_from_data_dir w self dp = Inr s
           \<and> self_length s = count_ext (walk w dp) ''.png''
           \<and> length (jsons_p s) = self_length s \<and> length (maps_p s) = self_length s
           \<and> length (imgs_p s) = self_length s
           \<and> jsons_p s = map (\<lambda>(r, x). path_join r x)
                            (filter (\<lambda>(r, x). endswith x ''.json'') (walk_files (walk w dp)))
           \<and> maps_p s = map (\<lambda>(r, x). path_join r x)
                           (filter (\<lambda>(r, x). endswith x ''.npy'') (walk_files (walk w dp)))
           \<and> imgs_p s = map (\<lambda>(r, x). path_join r x)
                           (filter (\<lambda>(r, x). endswith x ''.png'') (walk_files (walk w dp)))
           \<and> jsons s = map (\<lambda>x. str_replace x dp []) (jsons_p s)
           \<and> maps s = map (\<lambda>x. str_replace x dp []) (maps_p s)
           \<and> imgs s = map (\<lambda>x. str_replace x dp []) (imgs_p s)
           \<and> (\<forall>s'. load_imgs_and_depthmaps w s = Inr s' \<longrightarrow>
                  orig_img_arr s' = map (imread w) (imgs_p s)
                \<and> depthmap_arr s' = map (\<lambda>p. scale w (depth_scale s) (np_load w p)) (maps_p s))"
  proof (intro exI[of _ ?s] conjI allI impI)
    show "get_filepaths_from_data_dir w self dp = Inr ?s" by (rule r)
    show "orig_img_arr s' = map (imread w) (imgs_p ?s)"
      if "load_imgs_and_depthmaps w ?s = Inr s'" for s' using rows[OF that] by blast
    show "depthmap_arr s' = map (\<lambda>p. scale w (depth_scale ?s) (np_load w p)) (maps_p ?s)"
      if "load_imgs_and_depthmaps w ?s = Inr s'" for s' using rows[OF that] by blast
  qed (use l in \<open>simp_all add: files_with_ext_walk_files\<close>)
qed

theorem scanner_counts_witness:
  "count_ext (walk ex_world_missing ''raw/set1'') ''.json'' \<noteq> count_ext (walk ex_world_missing ''raw/set1'') ''.npy''
   \<and> build_full ex_world_missing ex_self Map.empty ''raw/set1'' 1 None ex_clock =
         (Map.empty, Inl (AssertionError ''Unequal number of images, jsons, or maps''))
   \<and> count_ext (walk ex_world ''raw/set1'') ''.json'' = count_ext (walk ex_world ''raw/set1'') ''.npy''
   \<and> count_ext (walk ex_world ''raw/set1'') ''.npy'' = count_ext (walk ex_world ''raw/set1'') ''.png''
   \<and> (\<exists>s. get_filepaths_from_data_dir ex_world ex_self ''raw/set1'' = Inr s
         \<and> self_length s = 2
         \<and> jsons_p s = [''raw/set1/0.json'', ''raw/set1/1.json''])"
proof -
  have a: "count_ext (walk ex_world_missing ''raw/set1'') ''.json'' \<noteq>
      count_ext (walk ex_world_missing ''raw/set1'') ''.npy''"
    by (simp add: ex_counts)
  then have b: "build_full ex_world_missing ex_self Map.empty ''raw/set1'' 1 None ex_clock =
         (Map.empty, Inl (AssertionError ''Unequal number of images, jsons, or maps''))"
    using scanner_counts[of ex_world_missing "''raw/set1''" ex_self Map.empty 1 None ex_clock]
    by blast
  have c: "count_ext (walk ex_world ''raw/set1'') ''.json'' = count_ext (walk ex_world ''raw/set1'') ''.npy''"
    "count_ext (walk ex_world ''raw/set1'') ''.npy'' = count_ext (walk ex_world ''raw/set1'') ''.png''"
    by (simp_all add: ex_counts)
  with scanner_counts[of ex_world "''raw/set1''" ex_self Map.empty 1 None ex_clock]
  obtain s where s: "get_filepaths_from_data_dir ex_world ex_self ''raw/set1'' = Inr s"
    "self_length s = count_ext (walk ex_world ''raw/set1'') ''.png''"
    "jsons_p s = map (\<lambda>(r, x). path_join r x)
           (filter (\<lambda>(r, x). endswith x ''.json'') (walk_files (walk ex_world ''raw/set1'')))"
    by blast
  have "self_length s = 2" using s(2) by (simp add: ex_counts)
  moreover have "jsons_p s = [''raw/set1/0.json'', ''raw/set1/1.json'']"
    using s(3) ex_files(1)[of "''raw/set1''"] by (simp add: files_with_ext_walk_files)
  ultimately show ?thesis using a b c s(1) by blast
qed


lemma ex_files_unsorted:
  "files_with_ext (walk ex_world_unsorted dp) ''.json'' = [''raw/set1/1.json'', ''raw/set1/0.json'']"
  "files_with_ext (walk ex_world_unsorted dp) ''.npy'' = [''raw/set1/0.npy'', ''raw/set1/1.npy'']"
  "files_with_ext (walk ex_world_unsorted dp) ''.png'' = [''raw/set1/1.png'', ''raw/set1/0.png'']"
  by (simp_all add: files_with_ext_def ex_world_unsorted_def ex_world_def endswith_def path_join_def)

text \<open>
  The claim C9 as it was stated fails on a capture whose walk lists \<^verbatim>\<open>1.json\<close> before
  \<^verbatim>\<open>0.json\<close> and \<^verbatim>\<open>1.png\<close> before \<^verbatim>\<open>0.png\<close>: the counts are equal and the scanner
  succeeds, the JSON list it records is not sorted, and frame 0 is read from
  \<^verbatim>\<open>1.json\<close>, \<^verbatim>\<open>0.npy\<close> and \<^verbatim>\<open>1.png\<close>.
\<close>

theorem scanner_unsorted_counterexample:
  "\<not> isl (get_filepaths_from_data_dir ex_world_unsorted ex_self ''raw/set1'')
   \<and> jsons_p (projr (get_filepaths_from_data_dir ex_world_unsorted ex_self ''raw/set1''))
       = [''raw/set1/1.json'', ''raw/set1/0.json'']
   \<and> sort (jsons_p (projr (get_filepaths_from_data_dir ex_world_unsorted ex_self ''raw/set1'')))
       \<noteq> jsons_p (projr (get_filepaths_from_data_dir ex_world_unsorted ex_self ''raw/set1''))
   \<and> frame_paths (projr (get_filepaths_from_data_dir ex_world_unsorted ex_self ''raw/set1'')) 0
       = (''raw/set1/1.json'', ''raw/set1/0.npy'', ''raw/set1/1.png'')"
proof -
  have r: "get_filepaths_from_data_dir ex_world_unsorted ex_self ''raw/set1'' =
      Inr (ex_self\<lparr>jsons_p := [''raw/set1/1.json'', ''raw/set1/0.json''],
                   maps_p := [''raw/set1/0.npy'', ''raw/set1/1.npy''],
                   imgs_p := [''raw/set1/1.png'', ''raw/set1/0.png''],
                   jsons := map (\<lambda>x. str_replace x ''raw/set1'' [])
                              [''raw/set1/1.json'', ''raw/set1/0.json''],
                   maps := map (\<lambda>x. str_replace x ''raw/set1'' [])
                             [''raw/set1/0.npy'', ''raw/set1/1.npy''],
                   imgs := map (\<lambda>x. str_replace x ''raw/set1'' [])
                             [''raw/set1/1.png'', ''raw/set1/0.png''],
                   self_length := 2\<rparr>)"
    by (simp add: get_filepaths_from_data_dir_def Let_def ex_files_unsorted)
  have s: "sort [''raw/set1/1.json'', ''raw/set1/0.json''] =
      [''raw/set1/0.json'', ''raw/set1/1.json'']"
    by (simp add: less_eq_char_def less_char_def)
  show ?thesis unfolding r by (simp add: frame_paths_def s)
qed

subsection \<open>Uniform camera settings\<close>

text \<open>
  C5. On a scanned capture whose JSON files each hold six joints: when the files do not
  all record one depth scale, one depth intrinsics value and one color intrinsics value
  (each of the three collected sets must have exactly one element), \<^verbatim>\<open>_load_json_data\<close>
  fails with the assertion "Camera settings must be uniform over the dataset." and the
  build ends with that error, the file system unchanged; when each set is a singleton,
  its element is the value the builder records, and a build that succeeds writes these
  values as the attributes of the container.
\<close>


theorem camera_uniformity:
  assumes "get_filepaths_from_data_dir w (set_dest_path w self dp nm) dp = Inr s1"
    and "\<forall>p\<in>set (jsons_p s1). 6 \<le> length (joints (json_load w p))"
  shows "(\<not> (card (rs_depth_scale ` json_load w ` set (jsons_p s1)) = 1
            \<and> card (rs_intrin_depth ` json_load w ` set (jsons_p s1)) = 1
            \<and> card (rs_intrin_color ` json_load w ` set (jsons_p s1)) = 1)
       \<longrightarrow> load_json_data w s1 =
             Inl (AssertionError ''Camera settings must be uniform over the dataset.'')
         \<and> build_full w self fs dp ver nm clk =
             (fs, Inl (AssertionError ''Camera settings must be uniform over the dataset.'')))
     \<and> (card (rs_depth_scale ` json_load w ` set (jsons_p s1)) = 1
            \<and> card (rs_intrin_depth ` json_load w ` set (jsons_p s1)) = 1
            \<and> card (rs_intrin_color ` json_load w ` set (jsons_p s1)) = 1
       \<longrightarrow> (\<exists>s2. load_json_data w s1 = Inr s2
             \<and> rs_depth_scale ` json_load w ` set (jsons_p s1) = {depth_scale s2}
             \<and> rs_intrin_depth ` json_load w ` set (jsons_p s1) = {intrin_depth s2}
             \<and> rs_intrin_color ` json_load w ` set (jsons_p s1) = {intrin_color s2}
             \<and> (\<forall>fs' dest. build_full w self fs dp ver nm clk = (fs', Inr dest) \<longrightarrow>
                   (\<exists>c. fs' dest = Some c
                      \<and> attr_depth_scale (attrs c) = depth_scale s2
                      \<and> depthmaps_depth_scale c = depth_scale s2
                      \<and> attr_depth_intrinsics (attrs c) = intrin_depth s2
                      \<and> attr_color_intrinsics (attrs c) = intrin_color s2))))"
proof -
  have len: "length (jsons_p s1) = self_length s1"
    using get_filepaths_keeps[OF assms(1)] by blast
  let ?ds = "fold (\<lambda>p. List.insert (rs_depth_scale (json_load w p))) (jsons_p s1) []"
  let ?idp = "fold (\<lambda>p. List.insert (rs_intrin_depth (json_load w p))) (jsons_p s1) []"
  let ?icl = "fold (\<lambda>p. List.insert (rs_intrin_color (json_load w p))) (jsons_p s1) []"
  let ?D = "rs_depth_scale ` json_load w ` set (jsons_p s1)"
  let ?I = "rs_intrin_depth ` json_load w ` set (jsons_p s1)"
  let ?C = "rs_intrin_color ` json_load w ` set (jsons_p s1)"
  from load_json_data_eq[OF len assms(2)] obtain ang pos where
    res: "load_json_data w s1 =
         (if \<not> (length ?ds = length ?idp \<and> length ?idp = length ?icl \<and> length ?icl = 1)
          then Inl (AssertionError ''Camera settings must be uniform over the dataset.'')
          else Inr (s1\<lparr>ang_arr := ang, pos_arr := pos, depth_scale := hd ?ds,
                       intrin_depth := hd ?idp, intrin_color := hd ?icl\<rparr>))"
    by (elim exE)
  have cards: "length ?ds = card ?D" "length ?idp = card ?I" "length ?icl = card ?C"
    using length_fold_insert[of "\<lambda>p. rs_depth_scale (json_load w p)" "jsons_p s1"]
      length_fold_insert[of "\<lambda>p. rs_intrin_depth (json_load w p)" "jsons_p s1"]
      length_fold_insert[of "\<lambda>p. rs_intrin_color (json_load w p)" "jsons_p s1"]
    by (simp_all add: image_image)
  have uni: "(length ?ds = length ?idp \<and> length ?idp = length ?icl \<and> length ?icl = 1) \<longleftrightarrow>
      (card ?D = 1 \<and> card ?I = 1 \<and> card ?C = 1)"
    unfolding cards by linarith
  show ?thesis
  proof (intro conjI impI)
    assume n: "\<not> (card ?D = 1 \<and> card ?I = 1 \<and> card ?C = 1)"
    then have "\<not> (length ?ds = length ?idp \<and> length ?idp = length ?icl \<and> length ?icl = 1)"
      unfolding uni .
    then show f: "load_json_data w s1 =
             Inl (AssertionError ''Camera settings must be uniform over the dataset.'')"
      unfolding res by (rule if_P)
    show "build_full w self fs dp ver nm clk =
             (fs, Inl (AssertionError ''Camera settings must be uniform over the dataset.''))"
      using assms(1) f by (simp add: build_full_def)
  next
    assume u: "card ?D = 1 \<and> card ?I = 1 \<and> card ?C = 1"
    define s2 where "s2 = s1\<lparr>ang_arr := ang, pos_arr := pos, depth_scale := hd ?ds,
                       intrin_depth := hd ?idp, intrin_color := hd ?icl\<rparr>"
    from u have "\<not> \<not> (length ?ds = length ?idp \<and> length ?idp = length ?icl \<and> length ?icl = 1)"
      unfolding uni by simp
    then have r2: "load_json_data w s1 = Inr s2"
      unfolding res s2_def by (rule if_not_P)
    have vals: "?D = {depth_scale s2}" "?I = {intrin_depth s2}" "?C = {intrin_color s2}"
      using hd_fold_insert_singleton[of "\<lambda>p. rs_depth_scale (json_load w p)" "jsons_p s1"]
        hd_fold_insert_singleton[of "\<lambda>p. rs_intrin_depth (json_load w p)" "jsons_p s1"]
        hd_fold_insert_singleton[of "\<lambda>p. rs_intrin_color (json_load w p)" "jsons_p s1"] u
      by (simp_all add: s2_def image_image)
    have built: "\<exists>c. fs' dest = Some c
                      \<and> attr_depth_scale (attrs c) = depth_scale s2
                      \<and> depthmaps_depth_scale c = depth_scale s2
                      \<and> attr_depth_intrinsics (attrs c) = intrin_depth s2
                      \<and> attr_color_intrinsics (attrs c) = intrin_color s2"
      if b: "build_full w self fs dp ver nm clk = (fs', Inr dest)" for fs' dest
    proof -
      from build_full_Inr[OF b] obtain t1 t2 s3 s4 where
        t: "get_filepaths_from_data_dir w (set_dest_path w self dp nm) dp = Inr t1"
           "load_json_data w t1 = Inr t2"
           "load_imgs_and_depthmaps w t2 = Inr s3" "segment_images_and_maps w s3 = Inr s4"
           "save_full w s4 fs ver clk = (fs', Inr dest)"
        by blast
      have "t1 = s1" using t(1) assms(1) by simp
      then have "t2 = s2" using t(2) r2 by simp
      then have st: "load_imgs_and_depthmaps w s2 = Inr s3" "segment_images_and_maps w s3 = Inr s4"
            "save_full w s4 fs ver clk = (fs', Inr dest)"
        using t(3-5) by simp_all
      have k: "depth_scale s4 = depth_scale s2" "intrin_depth s4 = intrin_depth s2"
        "intrin_color s4 = intrin_color s2"
        using load_imgs_keeps[OF st(1)] segment_keeps[OF st(2)] by simp_all
      from save_full_Inr[OF st(3)] have
        "fs' dest = Some \<lparr>attrs = full_attrs w s4 ver clk (hd (orig_img_arr s4)) (hd (segmented_img_arr s4)),
          angles = ang_arr s4, positions = pos_arr s4,
          coordinates_depthmaps = depthmap_arr s4, depthmaps_depth_scale = depth_scale s4,
          coordinates_pointmaps = pointmap s4, images_original = orig_img_arr s4,
          images_segmented = segmented_img_arr s4, images_rois = rois s4,
          paths_jsons = jsons s4, paths_depthmaps = maps s4, paths_images = imgs s4\<rparr>"
        by simp
      then show ?thesis by (simp add: full_attrs_def k)
    qed
    show "\<exists>s2. load_json_data w s1 = Inr s2
             \<and> rs_depth_scale ` json_load w ` set (jsons_p s1) = {depth_scale s2}
             \<and> rs_intrin_depth ` json_load w ` set (jsons_p s1) = {intrin_depth s2}
             \<and> rs_intrin_color ` json_load w ` set (jsons_p s1) = {intrin_color s2}
             \<and> (\<forall>fs' dest. build_full w self fs dp ver nm clk = (fs', Inr dest) \<longrightarrow>
                   (\<exists>c. fs' dest = Some c
                      \<and> attr_depth_scale (attrs c) = depth_scale s2
                      \<and> depthmaps_depth_scale c = depth_scale s2
                      \<and> attr_depth_intrinsics (attrs c) = intrin_depth s2
                      \<and> attr_color_intrinsics (attrs c) = intrin_color s2))"
      by (intro exI[of _ s2] conjI r2 vals allI impI built)
  qed
qed


theorem camera_uniformity_witness:
  "(\<exists>s1. get_filepaths_from_data_dir ex_world_mixed
            (set_dest_path ex_world_mixed ex_self ''raw/set1'' None) ''raw/set1'' = Inr s1
        \<and> list_all (\<lambda>p. 6 \<le> length (joints (json_load ex_world_mixed p))) (jsons_p s1)
        \<and> card (rs_depth_scale ` json_load ex_world_mixed ` set (jsons_p s1)) = 2)
   \<and> build_full ex_world_mixed ex_self Map.empty ''raw/set1'' 1 None ex_clock =
        (Map.empty, Inl (AssertionError ''Camera settings must be uniform over the dataset.''))
   \<and> (\<exists>s1 s2. get_filepaths_from_data_dir ex_world
            (set_dest_path ex_world ex_self ''raw/set1'' None) ''raw/set1'' = Inr s1
        \<and> list_all (\<lambda>p. 6 \<le> length (joints (json_load ex_world p))) (jsons_p s1)
        \<and> load_json_data ex_world s1 = Inr s2
        \<and> depth_scale s2 = 2 \<and> intrin_depth s2 = 7 \<and> intrin_color s2 = 8)"
proof -
  let ?self = "\<lambda>w. set_dest_path w ex_self ''raw/set1'' None"
  from ex_scan[OF ex_walk_mixed, of "?self ex_world_mixed"] obtain m1 where
    m: "get_filepaths_from_data_dir ex_world_mixed (?self ex_world_mixed) ''raw/set1'' = Inr m1"
       "jsons_p m1 = [''raw/set1/0.json'', ''raw/set1/1.json'']"
    by (elim exE conjE)
  have mw: "\<forall>p\<in>set (jsons_p m1). 6 \<le> length (joints (json_load ex_world_mixed p))"
    by (simp add: m(2) ex_world_mixed_def ex_frame_def)
  have mc: "card (rs_depth_scale ` json_load ex_world_mixed ` set (jsons_p m1)) = 2"
    by (simp add: m(2) ex_world_mixed_def ex_frame_def)
  then have mn: "\<not> (card (rs_depth_scale ` json_load ex_world_mixed ` set (jsons_p m1)) = 1
            \<and> card (rs_intrin_depth ` json_load ex_world_mixed ` set (jsons_p m1)) = 1
            \<and> card (rs_intrin_color ` json_load ex_world_mixed ` set (jsons_p m1)) = 1)"
    by simp
  have mb: "build_full ex_world_mixed ex_self Map.empty ''raw/set1'' 1 None ex_clock =
        (Map.empty, Inl (AssertionError ''Camera settings must be uniform over the dataset.''))"
    by (rule camera_uniformity[OF m(1) mw, of Map.empty 1 ex_clock,
          THEN conjunct1, THEN mp, OF mn, THEN conjunct2])
  from ex_scan[OF refl, of "?self ex_world"] obtain u1 where
    u: "get_filepaths_from_data_dir ex_world (?self ex_world) ''raw/set1'' = Inr u1"
       "jsons_p u1 = [''raw/set1/0.json'', ''raw/set1/1.json'']"
    by (elim exE conjE)
  have uw: "\<forall>p\<in>set (jsons_p u1). 6 \<le> length (joints (json_load ex_world p))"
    by (simp add: u(2) ex_world_def ex_frame_def)
  have uc: "card (rs_depth_scale ` json_load ex_world ` set (jsons_p u1)) = 1
            \<and> card (rs_intrin_depth ` json_load ex_world ` set (jsons_p u1)) = 1
            \<and> card (rs_intrin_color ` json_load ex_world ` set (jsons_p u1)) = 1"
    by (simp add: u(2) ex_world_def ex_frame_def)
  from camera_uniformity[OF u(1) uw, of Map.empty 1 ex_clock, THEN conjunct2, THEN mp, OF uc]
  obtain u2 where u2: "load_json_data ex_world u1 = Inr u2"
     "rs_depth_scale ` json_load ex_world ` set (jsons_p u1) = {depth_scale u2}"
     "rs_intrin_depth ` json_load ex_world ` set (jsons_p u1) = {intrin_depth u2}"
     "rs_intrin_color ` json_load ex_world ` set (jsons_p u1) = {intrin_color u2}"
    by (elim conjE exE)
  have uv: "depth_scale u2 = 2" "intrin_depth u2 = 7" "intrin_color u2 = 8"
    using u2(2,3,4) by (simp_all add: u(2) ex_world_def ex_frame_def)
  have "\<exists>s1. get_filepaths_from_data_dir ex_world_mixed
            (set_dest_path ex_world_mixed ex_self ''raw/set1'' None) ''raw/set1'' = Inr s1
        \<and> list_all (\<lambda>p. 6 \<le> length (joints (json_load ex_world_mixed p))) (jsons_p s1)
        \<and> card (rs_depth_scale ` json_load ex_world_mixed ` set (jsons_p s1)) = 2"
    using m(1) mw mc by (intro exI[of _ m1]) (simp add: list_all_iff)
  moreover have "\<exists>s1 s2. get_filepaths_from_data_dir ex_world
            (set_dest_path ex_world ex_self ''raw/set1'' None) ''raw/set1'' = Inr s1
        \<and> list_all (\<lambda>p. 6 \<le> length (joints (json_load ex_world p))) (jsons_p s1)
        \<and> load_json_data ex_world s1 = Inr s2
        \<and> depth_scale s2 = 2 \<and> intrin_depth s2 = 7 \<and> intrin_color s2 = 8"
    using u(1) uw u2(1) uv by (intro exI[of _ u1] exI[of _ u2]) (simp add: list_all_iff)
  ultimately show ?thesis using mb by (intro conjI)
qed


subsection \<open>The length invariant\<close>



subsection \<open>Building twice\<close>


lemma get_filepaths_reads:
  "get_filepaths_from_data_dir w s dp = Inr s' \<Longrightarrow>
   \<exists>t'. get_filepaths_from_data_dir w t dp = Inr t'
     \<and> self_length t' = self_length s' \<and> jsons_p t' = jsons_p s' \<and> maps_p t' = maps_p s'
     \<and> imgs_p t' = imgs_p s' \<and> dest_path t' = dest_path t \<and> name t' = name t"
  by (auto simp: get_filepaths_eq split: if_splits)

lemma save_full_existing:
  assumes "fs (path_join (dest_path s) (name s @ ''.h5'')) = Some c"
    and "orig_img_arr s \<noteq> []" and "segmented_img_arr s \<noteq> []"
  shows "save_full w s fs ver clk =
           (fs(path_join (dest_path s) (name s @ ''.h5'') \<mapsto>
                 c\<lparr>attrs := fst (write_attrs w s ver clk (attrs c))\<rparr>), Inl ValueError)"
  using assms
  by (cases "orig_img_arr s"; cases "segmented_img_arr s")
     (simp_all add: save_full_def write_attrs_def Let_def)

lemma set_dest_path_dest:
  "dest_path (set_dest_path w s dp nm) = dest_path (set_dest_path w t dp nm)
   \<and> name (set_dest_path w s dp nm) = name (set_dest_path w t dp nm)"
  by (simp add: set_dest_path_def Let_def)

text \<open>
  C7. The specification asks that a second full build of an unchanged capture into the
  same destination succeeds and gives the same arrays. The code does not: after a build
  that succeeded, a second build of the same capture with the same name, by any builder
  and at any time, finds the container at its destination, replaces the attributes of
  that file and then fails with the \<^verbatim>\<open>ValueError\<close> of \<^verbatim>\<open>create_dataset\<close> on a name that
  exists; the arrays of the first build stay in the file.
\<close>

theorem rebuild_refused:
  assumes "build_full w self fs dp ver nm clk = (fs1, Inr dest)"
  shows "\<exists>c a. fs1 dest = Some c
     \<and> build_full w self' fs1 dp ver nm clk' = (fs1(dest \<mapsto> c\<lparr>attrs := a\<rparr>), Inl ValueError)"
proof -
  from build_full_Inr[OF assms] obtain s1 s2 s3 s4 where
    st: "get_filepaths_from_data_dir w (set_dest_path w self dp nm) dp = Inr s1"
        "load_json_data w s1 = Inr s2" "load_imgs_and_depthmaps w s2 = Inr s3"
        "segment_images_and_maps w s3 = Inr s4" "save_full w s4 fs ver clk = (fs1, Inr dest)"
    by blast
  note k1 = get_filepaths_keeps[OF st(1)] and k2 = load_json_data_keeps[OF st(2)]
    and k3 = load_imgs_keeps[OF st(3)] and k4 = segment_keeps[OF st(4)]
  note sv = save_full_Inr[OF st(5)]
  from get_filepaths_reads[OF st(1), of "set_dest_path w self' dp nm"] obtain t1 where
    t1: "get_filepaths_from_data_dir w (set_dest_path w self' dp nm) dp = Inr t1"
        "self_length t1 = self_length s1" "jsons_p t1 = jsons_p s1" "maps_p t1 = maps_p s1"
        "imgs_p t1 = imgs_p s1" "dest_path t1 = dest_path (set_dest_path w self' dp nm)"
        "name t1 = name (set_dest_path w self' dp nm)"
    by (elim exE conjE)
  define t2 where "t2 = t1\<lparr>ang_arr := ang_arr s2, pos_arr := pos_arr s2,
        depth_scale := depth_scale s2, intrin_depth := intrin_depth s2,
        intrin_color := intrin_color s2\<rparr>"
  have r2: "load_json_data w t1 = Inr t2"
    unfolding t2_def by (rule load_json_data_reads[OF t1(2,3) st(2)])
  have f2: "self_length t2 = self_length s2" "imgs_p t2 = imgs_p s2" "maps_p t2 = maps_p s2"
    "depth_scale t2 = depth_scale s2" "dest_path t2 = dest_path t1" "name t2 = name t1"
    using k2 t1 by (simp_all add: t2_def)
  define t3 where "t3 = t2\<lparr>img_height := img_height s3, img_width := img_width s3,
          orig_img_arr := orig_img_arr s3, depthmap_arr := depthmap_arr s3\<rparr>"
  have r3: "load_imgs_and_depthmaps w t2 = Inr t3"
    unfolding t3_def by (rule load_imgs_reads[OF f2(1,2,3,4) st(3)])
  have f3: "self_length t3 = self_length s3" "orig_img_arr t3 = orig_img_arr s3"
    "depthmap_arr t3 = depthmap_arr s3" "img_height t3 = img_height s3"
    "img_width t3 = img_width s3" "dest_path t3 = dest_path t1" "name t3 = name t1"
    using k3 f2 by (simp_all add: t3_def)
  define t4 where "t4 = t3\<lparr>segmented_img_arr := segmented_img_arr s4, pointmap := pointmap s4,
                   mask_arr := mask_arr s4, rois := rois s4\<rparr>"
  have r4: "segment_images_and_maps w t3 = Inr t4"
    unfolding t4_def by (rule segment_reads[OF f3(1-5) st(4)])
  have f4: "orig_img_arr t4 = orig_img_arr s4" "segmented_img_arr t4 = segmented_img_arr s4"
    "dest_path t4 = dest_path s4" "name t4 = name s4"
    using k1 k2 k3 k4 f3 t1(6,7) set_dest_path_dest[of w self dp nm self']
    by (simp_all add: t4_def)
  from sv have d: "dest = path_join (dest_path t4) (name t4 @ ''.h5'')"
    and ne: "orig_img_arr t4 \<noteq> []" "segmented_img_arr t4 \<noteq> []"
    unfolding f4 by simp_all
  from sv obtain c where c: "fs1 dest = Some c" by auto
  define a where "a = fst (write_attrs w t4 ver clk' (attrs c))"
  have "save_full w t4 fs1 ver clk' = (fs1(dest \<mapsto> c\<lparr>attrs := a\<rparr>), Inl ValueError)"
    using save_full_existing[of fs1 t4 c w ver clk'] c ne unfolding d a_def by simp
  then have "build_full w self' fs1 dp ver nm clk' = (fs1(dest \<mapsto> c\<lparr>attrs := a\<rparr>), Inl ValueError)"
    by (simp add: build_full_def t1(1) r2 r3 r4)
  with c show ?thesis by blast
qed

theorem rebuild_refused_witness:
  "\<exists>fs1. build_full ex_world ex_self Map.empty ''raw/set1'' 1 None ex_clock =
           (fs1, Inr ''data/set1/set1.h5'')
     \<and> snd (build_full ex_world ex_self fs1 ''raw/set1'' 1 None ex_clock) = Inl ValueError"
proof -
  from ex_build obtain fs1 where
    b: "build_full ex_world ex_self Map.empty ''raw/set1'' 1 None ex_clock =
        (fs1, Inr ''data/set1/set1.h5'')" by blast
  from rebuild_refused[OF b, of ex_self ex_clock]
  have "snd (build_full ex_world ex_self fs1 ''raw/set1'' 1 None ex_clock) = Inl ValueError"
    by auto
  with b show ?thesis by blast
qed


end
